theory Spec2Isabelle
  imports Complex_Main "HOL-Library.Log_Nat"
begin

section \<open>Data model\<close>

text \<open>
  The tables of \<^verbatim>\<open>src/database.js\<close> that the routes below read and write, one record per row.
  A table is the list of its rows in insertion (rowid) order. Row ids and timestamps are natural
  numbers; a URL parameter \<^verbatim>\<open>:id\<close> that names no row is an id that no row carries.
  Text columns are strings, nullable columns are options. The rating column is declared
  \<^verbatim>\<open>REAL\<close>: a cell holds a number, kept here as the exact rational it denotes (every finite
  double is one), or a text that does not read as a number, which SQLite stores as it is.
  The schema's \<^verbatim>\<open>REFERENCES\<close> clauses are not enforced while the routes run (see the statement
  wrapper below), so a row may name a user or a submission that does not exist.
\<close>

datatype sql_value = SqlReal rat | SqlText string

record user =
  u_id :: nat
  u_email :: string
  u_password :: string
  u_name :: string
  u_role :: string
  u_specialty :: "string option"

record submission =
  s_id :: nat
  s_user_id :: nat
  s_company_name :: string
  s_one_liner :: string
  s_industry :: string
  s_status :: string
  s_rating :: "sql_value option"
  s_submitted_at :: nat

record board_note =
  n_id :: nat
  n_submission_id :: nat
  n_user_id :: nat
  n_text :: string
  n_founder_visible :: bool
  n_created_at :: nat

record partnership =
  p_id :: nat
  p_submission_id :: nat
  p_user_id :: nat
  p_status :: string
  p_created_at :: nat
  p_responded_at :: "nat option"

text \<open>
  The database: the four tables, and for the two tables the routes insert into, the largest
  rowid handed out so far (\<^verbatim>\<open>AUTOINCREMENT\<close> never reuses an id).
\<close>

record db =
  users :: "user list"
  submissions :: "submission list"
  board_notes :: "board_note list"
  partnerships :: "partnership list"
  last_user_id :: nat
  last_partnership_id :: nat

text \<open>\<^verbatim>\<open>req.user\<close>: the decoded token, \<^verbatim>\<open>{ id, role }\<close>.\<close>

record actor =
  a_id :: nat
  a_role :: string

text \<open>
  What a route answers: \<^verbatim>\<open>res.status(c).json(payload)\<close> is \<open>Sent c payload\<close> (\<^verbatim>\<open>res.json\<close> alone
  answers 200), \<^verbatim>\<open>res.status(c).json({ error: msg })\<close> is \<open>Err c msg\<close>, and an exception that
  leaves the handler (answered by the framework with status 500) is \<open>Uncaught\<close>.
\<close>

datatype 'a reply = Sent nat 'a | Err nat string | Uncaught

text \<open>
  The \<^verbatim>\<open>rating\<close> field of a request body after \<^verbatim>\<open>express.json()\<close>: the field is missing, is
  \<^verbatim>\<open>null\<close>, a boolean, a number (a double, kept as the rational it denotes) or a string of code
  units below 256. Arrays and objects are outside this embedding.
\<close>

datatype json = JUndefined | JNull | JBool bool | JNumber rat | JString string

section \<open>The routes\<close>

subsection \<open>Middleware\<close>

text \<open>
  \<^verbatim>\<open>requireRole(role)\<close>: \<open>None\<close> when the middleware calls \<^verbatim>\<open>next()\<close>, the 403 answer otherwise.
  The token is taken as already verified by \<^verbatim>\<open>requireAuth\<close>.
\<close>

definition requireRole :: "string \<Rightarrow> actor \<Rightarrow> 'a reply option" where
  "requireRole role a =
     (if a_role a = ''admin'' then None
      else if a_role a \<noteq> role then Some (Err 403 (''Access restricted to '' @ role @ '' members''))
      else None)"

subsection \<open>The statement wrapper\<close>

text \<open>
  \<^verbatim>\<open>prepare(sql).run(...)\<close> of \<^verbatim>\<open>database.js\<close> steps the statement, calls \<^verbatim>\<open>save()\<close> and only then
  reads \<^verbatim>\<open>getRowsModified()\<close> and \<^verbatim>\<open>last_insert_rowid()\<close>. \<^verbatim>\<open>save()\<close> exports the database, and
  the export of sql.js closes the connection and opens the database again; both counters
  belong to the connection and are 0 on the new one. So the statement takes effect, and what
  \<^verbatim>\<open>run\<close> returns is \<^verbatim>\<open>{ changes: 0, lastInsertRowid: 0 }\<close> whatever it did.
  \<^verbatim>\<open>PRAGMA foreign_keys = ON\<close> is lost in the same way, at the save that follows the
  \<^verbatim>\<open>CREATE TABLE\<close> statements: no foreign key is checked while the routes run. The \<^verbatim>\<open>UNIQUE\<close> and
  \<^verbatim>\<open>CHECK\<close> constraints are part of the tables and stay in force.
\<close>

record run_info =
  changes :: nat
  lastInsertRowid :: nat

definition run_result :: run_info where
  "run_result = \<lparr>changes = 0, lastInsertRowid = 0\<rparr>"

subsection \<open>Doubles\<close>

text \<open>
  JavaScript numbers are IEEE 754 doubles. A finite double is kept as the rational it denotes,
  and \<open>fl x\<close> is the double nearest to \<open>x\<close> (53 significant bits, ties to the even significand),
  which is what \<^verbatim>\<open>/\<close> and \<^verbatim>\<open>*\<close> return for the exact quotient and product, as long as the
  result is neither beyond the largest double nor subnormal.
  \<open>ilog2 x\<close> is the exponent of the power of two at or below a positive \<open>x\<close>, found from
  the bit lengths of its numerator and denominator.
\<close>

definition ilog2 :: "rat \<Rightarrow> int" where
  "ilog2 x =
     (let (p, q) = quotient_of x;
          k = bitlen p - bitlen q
      in if 2 powi k \<le> x then k else k - 1)"

definition round_even :: "rat \<Rightarrow> int" where
  "round_even m =
     (let f = \<lfloor>m\<rfloor>; r = m - of_int f
      in if r < 1 / 2 then f else if r > 1 / 2 then f + 1 else if even f then f else f + 1)"

definition fl :: "rat \<Rightarrow> rat" where
  "fl x =
     (if x = 0 then 0
      else if x < 0 then - (let e = ilog2 (- x) - 52 in of_int (round_even (- x / 2 powi e)) * 2 powi e)
      else (let e = ilog2 x - 52 in of_int (round_even (x / 2 powi e)) * 2 powi e))"

text \<open>
  A JavaScript number at large: \<^verbatim>\<open>NaN\<close>, a finite double, or an infinity. \<open>to_double x\<close> is the
  number that a numeric literal of value \<open>x\<close> denotes: the nearest double, on the grid of the
  subnormal numbers below \<open>2 ^ - 1022\<close>, and an infinity from \<open>2 ^ 1024\<close> on.
\<close>

datatype js_number = NaN | Num rat | PosInf | NegInf

definition to_double :: "rat \<Rightarrow> js_number" where
  "to_double x =
     (if x = 0 then Num 0
      else
        (let e = max (ilog2 \<bar>x\<bar> - 52) (- 1074);
             y = of_int (round_even (\<bar>x\<bar> / 2 powi e)) * 2 powi e
         in if 2 ^ 1024 \<le> y then (if 0 < x then PosInf else NegInf)
            else Num (if 0 < x then y else - y)))"

subsection \<open>Queries shared by the routes\<close>

definition user_by_id :: "db \<Rightarrow> nat \<Rightarrow> user option" where
  "user_by_id d i = find (\<lambda>u. u_id u = i) (users d)"

definition submission_by_id :: "db \<Rightarrow> nat \<Rightarrow> submission option" where
  "submission_by_id d i = find (\<lambda>s. s_id s = i) (submissions d)"

subsection \<open>PATCH /submissions/:id/status and /rating\<close>

definition valid_statuses :: "string list" where
  "valid_statuses = [''new'', ''under_review'', ''more_info'', ''approved'', ''passed'']"

text \<open>\<^verbatim>\<open>UPDATE submissions SET status = ? WHERE id = ?\<close>\<close>

definition update_status :: "string \<Rightarrow> nat \<Rightarrow> db \<Rightarrow> db" where
  "update_status st i d =
     d\<lparr>submissions := map (\<lambda>s. if s_id s = i then s\<lparr>s_status := st\<rparr> else s) (submissions d)\<rparr>"

text \<open>
  The status route. The body's \<^verbatim>\<open>status\<close> is \<open>None\<close> when it is missing or not a string
  (\<^verbatim>\<open>valid.includes\<close> finds neither). The e-mail to the founder that follows the update is sent
  without being awaited and with its failure swallowed; it changes neither the answer nor the
  database and is not part of the embedding.
\<close>

definition patch_status :: "actor \<Rightarrow> nat \<Rightarrow> string option \<Rightarrow> db \<Rightarrow> string reply \<times> db" where
  "patch_status a i status d =
     (case requireRole ''board'' a of
        Some e \<Rightarrow> (e, d)
      | None \<Rightarrow>
          (case status of
             None \<Rightarrow> (Err 400 ''Invalid status'', d)
           | Some st \<Rightarrow>
               if st \<notin> set valid_statuses then (Err 400 ''Invalid status'', d)
               else (Sent 200 st, update_status st i d)))"

text \<open>
  Numerals in strings. \<open>digit_value\<close> is the value of a digit or of a letter a to f in either
  case; \<open>decimal_literal\<close> reads digits, optionally a point and more digits (a digit on one
  side of the point at least), and optionally an exponent: \<^verbatim>\<open>e\<close> or \<^verbatim>\<open>E\<close>, an optional sign and
  digits. It is \<open>None\<close> when the string is no such literal.
\<close>

definition digit_value :: "char \<Rightarrow> nat option" where
  "digit_value c =
     (let n = of_char c :: nat
      in if 48 \<le> n \<and> n \<le> 57 then Some (n - 48)
         else if 97 \<le> n \<and> n \<le> 102 then Some (n - 87)
         else if 65 \<le> n \<and> n \<le> 70 then Some (n - 55)
         else None)"

definition is_digit :: "nat \<Rightarrow> char \<Rightarrow> bool" where
  "is_digit b c = (case digit_value c of Some v \<Rightarrow> v < b | None \<Rightarrow> False)"

definition digits_number :: "nat \<Rightarrow> string \<Rightarrow> int" where
  "digits_number b ds =
     foldl (\<lambda>a c. a * int b + (case digit_value c of Some v \<Rightarrow> int v | None \<Rightarrow> 0)) 0 ds"

definition signed_digits :: "string \<Rightarrow> int option" where
  "signed_digits t =
     (let ds = (case t of c # r \<Rightarrow> if c = CHR ''-'' \<or> c = CHR ''+'' then r else t | [] \<Rightarrow> [])
      in if ds = [] \<or> \<not> list_all (is_digit 10) ds then None
         else if hd t = CHR ''-'' then Some (- digits_number 10 ds)
         else Some (digits_number 10 ds))"

definition exponent_part :: "string \<Rightarrow> int option" where
  "exponent_part t =
     (case t of
        [] \<Rightarrow> Some 0
      | c # r \<Rightarrow> if c = CHR ''e'' \<or> c = CHR ''E'' then signed_digits r else None)"

definition decimal_literal :: "string \<Rightarrow> rat option" where
  "decimal_literal t =
     (let ip = takeWhile (is_digit 10) t;
          r1 = dropWhile (is_digit 10) t;
          point = (r1 \<noteq> [] \<and> hd r1 = CHR ''.'');
          fp = (if point then takeWhile (is_digit 10) (tl r1) else []);
          r2 = (if point then dropWhile (is_digit 10) (tl r1) else r1)
      in if ip = [] \<and> fp = [] then None
         else
           (case exponent_part r2 of
              None \<Rightarrow> None
            | Some e \<Rightarrow> Some (of_int (digits_number 10 (ip @ fp)) * 10 powi (e - int (length fp)))))"

definition trim :: "(char \<Rightarrow> bool) \<Rightarrow> string \<Rightarrow> string" where
  "trim space s = rev (dropWhile space (rev (dropWhile space s)))"

text \<open>
  \<^verbatim>\<open>StringToNumber\<close> of ECMAScript, which the comparisons apply to a string: white space is
  trimmed (tab, line feed, vertical tab, form feed, carriage return, space and no-break space
  are the white space below 256); the empty string is 0; \<^verbatim>\<open>0x\<close>, \<^verbatim>\<open>0o\<close> and \<^verbatim>\<open>0b\<close> in either case
  introduce hexadecimal, octal and binary digits; otherwise an optional sign precedes
  \<^verbatim>\<open>Infinity\<close> or a decimal literal; every other string is \<^verbatim>\<open>NaN\<close>.
\<close>

definition js_space :: "char \<Rightarrow> bool" where
  "js_space c = ((of_char c :: nat) \<in> {9, 10, 11, 12, 13, 32, 160})"

definition radix_literal :: "nat \<Rightarrow> string \<Rightarrow> js_number" where
  "radix_literal b ds =
     (if ds \<noteq> [] \<and> list_all (is_digit b) ds then to_double (of_int (digits_number b ds)) else NaN)"

definition unsigned_literal :: "string \<Rightarrow> js_number" where
  "unsigned_literal t =
     (if t = ''Infinity'' then PosInf
      else (case decimal_literal t of None \<Rightarrow> NaN | Some x \<Rightarrow> to_double x))"

fun negated :: "js_number \<Rightarrow> js_number" where
  "negated NaN = NaN"
| "negated (Num x) = Num (- x)"
| "negated PosInf = NegInf"
| "negated NegInf = PosInf"

definition StringToNumber :: "string \<Rightarrow> js_number" where
  "StringToNumber s =
     (let t = trim js_space s
      in if t = [] then Num 0
         else if hd t = CHR ''0'' \<and> tl t \<noteq> [] \<and> hd (tl t) \<in> {CHR ''x'', CHR ''X''}
         then radix_literal 16 (tl (tl t))
         else if hd t = CHR ''0'' \<and> tl t \<noteq> [] \<and> hd (tl t) \<in> {CHR ''o'', CHR ''O''}
         then radix_literal 8 (tl (tl t))
         else if hd t = CHR ''0'' \<and> tl t \<noteq> [] \<and> hd (tl t) \<in> {CHR ''b'', CHR ''B''}
         then radix_literal 2 (tl (tl t))
         else if hd t = CHR ''-'' then negated (unsigned_literal (tl t))
         else if hd t = CHR ''+'' then unsigned_literal (tl t)
         else unsigned_literal t)"

fun number_less :: "js_number \<Rightarrow> rat \<Rightarrow> bool" where
  "number_less NaN k = False"
| "number_less (Num x) k = (x < k)"
| "number_less PosInf k = False"
| "number_less NegInf k = True"

fun number_greater :: "js_number \<Rightarrow> rat \<Rightarrow> bool" where
  "number_greater NaN k = False"
| "number_greater (Num x) k = (x > k)"
| "number_greater PosInf k = True"
| "number_greater NegInf k = False"

text \<open>
  JavaScript's \<^verbatim>\<open>!v\<close>, \<^verbatim>\<open>v < k\<close> and \<^verbatim>\<open>v > k\<close> against a number \<open>k\<close>, on the values of \<open>json\<close>.
  The comparisons turn \<open>v\<close> into a number first: \<^verbatim>\<open>undefined\<close> into \<^verbatim>\<open>NaN\<close>, which compares
  false with everything, \<^verbatim>\<open>null\<close> and \<^verbatim>\<open>false\<close> into 0, \<^verbatim>\<open>true\<close> into 1, a string by
  \<^verbatim>\<open>StringToNumber\<close>. Of the strings only the empty one is falsy.
\<close>

fun falsy :: "json \<Rightarrow> bool" where
  "falsy JUndefined = True"
| "falsy JNull = True"
| "falsy (JBool b) = (\<not> b)"
| "falsy (JNumber r) = (r = 0)"
| "falsy (JString s) = (s = [])"

fun js_less :: "json \<Rightarrow> rat \<Rightarrow> bool" where
  "js_less JUndefined k = False"
| "js_less JNull k = (0 < k)"
| "js_less (JBool b) k = ((if b then 1 else 0) < k)"
| "js_less (JNumber r) k = (r < k)"
| "js_less (JString s) k = number_less (StringToNumber s) k"

fun js_greater :: "json \<Rightarrow> rat \<Rightarrow> bool" where
  "js_greater JUndefined k = False"
| "js_greater JNull k = (0 > k)"
| "js_greater (JBool b) k = ((if b then 1 else 0) > k)"
| "js_greater (JNumber r) k = (r > k)"
| "js_greater (JString s) k = number_greater (StringToNumber s) k"

text \<open>
  \<^verbatim>\<open>UPDATE submissions SET rating = ? WHERE id = ?\<close>. The statement binds a number as it is, a
  boolean as the number \<^verbatim>\<open>val + 0\<close> and a string as text; \<^verbatim>\<open>null\<close> and a missing value never
  reach it. The column's \<^verbatim>\<open>REAL\<close> affinity then turns a text that reads as a number into that
  number and leaves every other text as it is. A text reads as a number to SQLite when,
  between optional spaces (space, tab, line feed, vertical tab, form feed, carriage return),
  it is an optional sign and a decimal literal; it becomes the double nearest to the literal
  (a text that passes the rating guard is within the doubles' range).
\<close>

fun sql_bind :: "json \<Rightarrow> sql_value option" where
  "sql_bind (JNumber r) = Some (SqlReal r)"
| "sql_bind (JBool b) = Some (SqlReal (if b then 1 else 0))"
| "sql_bind (JString s) = Some (SqlText s)"
| "sql_bind _ = None"

definition sqlite_space :: "char \<Rightarrow> bool" where
  "sqlite_space c = ((of_char c :: nat) \<in> {9, 10, 11, 12, 13, 32})"

definition sqlite_literal :: "string \<Rightarrow> rat option" where
  "sqlite_literal s =
     (let t = trim sqlite_space s
      in if t = [] then None
         else if hd t = CHR ''-'' then map_option uminus (decimal_literal (tl t))
         else if hd t = CHR ''+'' then decimal_literal (tl t)
         else decimal_literal t)"

fun real_affinity :: "sql_value \<Rightarrow> sql_value" where
  "real_affinity (SqlReal r) = SqlReal r"
| "real_affinity (SqlText s) =
     (case sqlite_literal s of Some x \<Rightarrow> SqlReal (fl x) | None \<Rightarrow> SqlText s)"

definition update_rating :: "json \<Rightarrow> nat \<Rightarrow> db \<Rightarrow> db" where
  "update_rating v i d =
     d\<lparr>submissions :=
         map (\<lambda>s. if s_id s = i then s\<lparr>s_rating := map_option real_affinity (sql_bind v)\<rparr> else s)
           (submissions d)\<rparr>"

definition patch_rating :: "actor \<Rightarrow> nat \<Rightarrow> json \<Rightarrow> db \<Rightarrow> json reply \<times> db" where
  "patch_rating a i rating d =
     (case requireRole ''board'' a of
        Some e \<Rightarrow> (e, d)
      | None \<Rightarrow>
          if falsy rating \<or> js_less rating 1 \<or> js_greater rating 5
          then (Err 400 ''Rating must be between 1 and 5'', d)
          else (Sent 200 rating, update_rating rating i d))"

subsection \<open>Joins\<close>

text \<open>
  \<^verbatim>\<open>FROM t JOIN users u ON t.user_id = u.id\<close>: every row of \<open>t\<close> whose user row exists, paired
  with it, in the order of \<open>t\<close>. \<^verbatim>\<open>JOIN submissions s ON p.submission_id = s.id\<close> likewise.
\<close>

definition join_users :: "db \<Rightarrow> ('r \<Rightarrow> nat) \<Rightarrow> 'r list \<Rightarrow> ('r \<times> user) list" where
  "join_users d key rows = List.map_filter (\<lambda>r. map_option (Pair r) (user_by_id d (key r))) rows"

definition join_submissions :: "db \<Rightarrow> ('r \<Rightarrow> nat) \<Rightarrow> 'r list \<Rightarrow> ('r \<times> submission) list" where
  "join_submissions d key rows =
     List.map_filter (\<lambda>r. map_option (Pair r) (submission_by_id d (key r))) rows"

subsection \<open>GET /submissions/:id and GET /submissions\<close>

text \<open>
  The notes of a submission as both routes select them: joined with their authors, filtered by
  \<^verbatim>\<open>noteCondition\<close>, \<^verbatim>\<open>ORDER BY bn.created_at ASC\<close> (rows of equal time stay in table order), each
  with the author's name.
\<close>

definition noteCondition :: "actor \<Rightarrow> board_note \<Rightarrow> bool" where
  "noteCondition a n = (if a_role a = ''founder'' then n_founder_visible n else True)"

definition notes_of :: "db \<Rightarrow> actor \<Rightarrow> nat \<Rightarrow> (board_note \<times> string) list" where
  "notes_of d a sid =
     map (\<lambda>(n, u). (n, u_name u))
       (sort_key (\<lambda>(n, u). n_created_at n)
         (filter (\<lambda>(n, u). n_submission_id n = sid \<and> noteCondition a n)
           (join_users d n_user_id (board_notes d))))"

text \<open>
  What the two routes answer for one submission: the row, the founder's name and the notes.
  The tagged members, chat messages, partnerships and meeting requests that the answer also
  carries are read from tables of their own and are left out.
\<close>

record submission_view =
  v_submission :: submission
  v_founder_name :: string
  v_notes :: "(board_note \<times> string) list"

definition submission_with_founder :: "db \<Rightarrow> nat \<Rightarrow> (submission \<times> user) option" where
  "submission_with_founder d i =
     find (\<lambda>(s, u). s_id s = i) (join_users d s_user_id (submissions d))"

definition get_submission :: "actor \<Rightarrow> nat \<Rightarrow> db \<Rightarrow> submission_view reply" where
  "get_submission a i d =
     (case submission_with_founder d i of
        None \<Rightarrow> Err 404 ''Submission not found''
      | Some (sub, u) \<Rightarrow>
          if a_role a = ''founder'' \<and> s_user_id sub \<noteq> a_id a then Err 403 ''Access denied''
          else Sent 200 \<lparr>v_submission = sub, v_founder_name = u_name u,
                 v_notes = notes_of d a (s_id sub)\<rparr>)"

text \<open>
  SQLite's \<^verbatim>\<open>LIKE\<close> (pattern first): \<^verbatim>\<open>%\<close> matches any run of characters, \<^verbatim>\<open>_\<close> any one
  character, and letters A to Z match without regard to case.
\<close>

definition ascii_lower :: "char \<Rightarrow> char" where
  "ascii_lower c =
     (let n = of_char c :: nat in if 65 \<le> n \<and> n \<le> 90 then char_of (n + 32) else c)"

fun like :: "string \<Rightarrow> string \<Rightarrow> bool" where
  "like [] t = (t = [])"
| "like (p # ps) [] = (p = CHR ''%'' \<and> like ps [])"
| "like (p # ps) (c # cs) =
     (if p = CHR ''%'' then like ps (c # cs) \<or> like (p # ps) cs
      else if p = CHR ''_'' then like ps cs
      else ascii_lower p = ascii_lower c \<and> like ps cs)"

text \<open>
  The query string of the list route. A parameter counts when it is present and not empty
  (\<^verbatim>\<open>status && status !== "all"\<close>).
\<close>

record query =
  q_status :: "string option"
  q_industry :: "string option"
  q_search :: "string option"

definition conditions :: "actor \<Rightarrow> query \<Rightarrow> submission \<Rightarrow> bool" where
  "conditions a q s =
     ((if a_role a = ''founder'' then s_user_id s = a_id a else True) \<and>
      (case q_status q of
         Some st \<Rightarrow> (if st \<noteq> [] \<and> st \<noteq> ''all'' then s_status s = st else True)
       | None \<Rightarrow> True) \<and>
      (case q_industry q of
         Some ind \<Rightarrow> (if ind \<noteq> [] \<and> ind \<noteq> ''all'' then s_industry s = ind else True)
       | None \<Rightarrow> True) \<and>
      (case q_search q of
         Some search \<Rightarrow>
           (if search \<noteq> [] then
              (let searchTerm = ''%'' @ search @ ''%'' in
                 like searchTerm (s_company_name s) \<or> like searchTerm (s_one_liner s) \<or>
                 like searchTerm (s_industry s))
            else True)
       | None \<Rightarrow> True))"

text \<open>
  \<^verbatim>\<open>ORDER BY s.submitted_at DESC\<close> (rows of equal time stay in table order), then the notes of
  each row.
\<close>

definition list_submissions :: "actor \<Rightarrow> query \<Rightarrow> db \<Rightarrow> submission_view list reply" where
  "list_submissions a q d =
     Sent 200
       (map (\<lambda>(sub, u). \<lparr>v_submission = sub, v_founder_name = u_name u,
                          v_notes = notes_of d a (s_id sub)\<rparr>)
         (sort_key (\<lambda>(s, u). - int (s_submitted_at s))
           (filter (\<lambda>(s, u). conditions a q s) (join_users d s_user_id (submissions d)))))"

subsection \<open>Partnerships: claim, withdraw, respond\<close>

text \<open>
  \<^verbatim>\<open>SELECT COUNT(*) FROM partnerships WHERE submission_id = ? AND status IN ('pending', 'accepted')\<close>
\<close>

definition active_count :: "db \<Rightarrow> nat \<Rightarrow> nat" where
  "active_count d subId =
     length (filter (\<lambda>p. p_submission_id p = subId \<and> p_status p \<in> {''pending'', ''accepted''})
       (partnerships d))"

text \<open>\<^verbatim>\<open>SELECT id FROM partnerships WHERE submission_id = ? AND user_id = ?\<close>\<close>

definition partnership_of :: "db \<Rightarrow> nat \<Rightarrow> nat \<Rightarrow> partnership option" where
  "partnership_of d subId uid =
     find (\<lambda>p. p_submission_id p = subId \<and> p_user_id p = uid) (partnerships d)"

text \<open>
  \<^verbatim>\<open>INSERT INTO partnerships (submission_id, user_id) VALUES (?, ?)\<close> against the table as
  \<^verbatim>\<open>database.js\<close> declares it: the statement throws (\<open>None\<close>) when the pair is already there
  (\<^verbatim>\<open>UNIQUE(submission_id, user_id)\<close>); otherwise the row gets the next id, the default status
  \<^verbatim>\<open>'pending'\<close>, the current time and no response time.
\<close>

definition new_row :: "nat \<Rightarrow> nat \<Rightarrow> nat \<Rightarrow> nat \<Rightarrow> partnership" where
  "new_row rowid subId uid now =
     \<lparr>p_id = rowid, p_submission_id = subId, p_user_id = uid, p_status = ''pending'',
      p_created_at = now, p_responded_at = None\<rparr>"

definition insert_partnership :: "nat \<Rightarrow> nat \<Rightarrow> nat \<Rightarrow> db \<Rightarrow> db option" where
  "insert_partnership subId uid now d =
     (if partnership_of d subId uid \<noteq> None then None
      else
        (let rowid = Suc (last_partnership_id d) in
           Some (d\<lparr>partnerships := partnerships d @ [new_row rowid subId uid now],
                   last_partnership_id := rowid\<rparr>)))"

text \<open>A partnership as the claim route answers it: the row with the partner's name and specialty.\<close>

record partnership_view =
  pv_partnership :: partnership
  pv_partner_name :: string
  pv_partner_specialty :: "string option"

text \<open>
  POST /submissions/:id/partner at time \<open>now\<close>. After the insert the route selects the
  partnership whose id is \<^verbatim>\<open>result.lastInsertRowid\<close>, joined with its user; the answer carries
  what that query finds, \<open>None\<close> where it finds nothing (\<^verbatim>\<open>undefined\<close>). Before answering, when
  the founder's row exists, the route reads the partner's name off the query's result for the
  founder's e-mail, which throws on \<^verbatim>\<open>undefined\<close>. The e-mail itself is not part of the
  embedding.
\<close>

definition claim_partner ::
  "actor \<Rightarrow> nat \<Rightarrow> nat \<Rightarrow> db \<Rightarrow> partnership_view option reply \<times> db" where
  "claim_partner a subId now d =
     (case requireRole ''board'' a of
        Some e \<Rightarrow> (e, d)
      | None \<Rightarrow>
          (case submission_by_id d subId of
             None \<Rightarrow> (Err 404 ''Submission not found'', d)
           | Some sub \<Rightarrow>
               if partnership_of d subId (a_id a) \<noteq> None
               then (Err 409 ''You have already requested to partner'', d)
               else if active_count d subId \<ge> 3
               then (Err 400 ''Maximum 3 partners reached for this submission'', d)
               else
                 (case insert_partnership subId (a_id a) now d of
                    None \<Rightarrow> (Uncaught, d)
                  | Some d' \<Rightarrow>
                      (let result = run_result in
                         case find (\<lambda>(p, u). p_id p = lastInsertRowid result)
                                (join_users d' p_user_id (partnerships d')) of
                           Some (p, u) \<Rightarrow>
                             (Sent 201 (Some \<lparr>pv_partnership = p, pv_partner_name = u_name u,
                                              pv_partner_specialty = u_specialty u\<rparr>), d')
                         | None \<Rightarrow>
                             if user_by_id d' (s_user_id sub) \<noteq> None then (Uncaught, d')
                             else (Sent 201 None, d')))))"

text \<open>
  DELETE /submissions/:id/partner:
  \<^verbatim>\<open>DELETE FROM partnerships WHERE submission_id = ? AND user_id = ? AND status = 'pending'\<close>,
  and 400 when \<^verbatim>\<open>result.changes\<close> is 0.
\<close>

definition withdraw_partner :: "actor \<Rightarrow> nat \<Rightarrow> db \<Rightarrow> unit reply \<times> db" where
  "withdraw_partner a subId d =
     (case requireRole ''board'' a of
        Some e \<Rightarrow> (e, d)
      | None \<Rightarrow>
          (let d' = d\<lparr>partnerships :=
                        filter (\<lambda>p. \<not> (p_submission_id p = subId \<and> p_user_id p = a_id a \<and>
                                         p_status p = ''pending'')) (partnerships d)\<rparr>;
               result = run_result
           in if changes result = 0 then (Err 400 ''No pending partnership to withdraw'', d')
              else (Sent 200 (), d')))"

text \<open>
  PATCH /partnerships/:id/respond at time \<open>now\<close>. The body's \<^verbatim>\<open>response\<close> is \<open>None\<close> when it is
  missing or not a string. The partnership is read joined with its submission, whose owner is
  \<^verbatim>\<open>founder_id\<close>.
\<close>

definition respond_message :: string where
  "respond_message =
     ''Response must be '' @ [CHR 0x27] @ ''accepted'' @ [CHR 0x27] @ '' or '' @
     [CHR 0x27] @ ''declined'' @ [CHR 0x27]"

text \<open>
  \<^verbatim>\<open>UPDATE partnerships SET status = ?, responded_at = CURRENT_TIMESTAMP WHERE id = ?\<close>, on one row.
\<close>

definition responded :: "nat \<Rightarrow> string \<Rightarrow> nat \<Rightarrow> partnership \<Rightarrow> partnership" where
  "responded pid r now p =
     (if p_id p = pid then p\<lparr>p_status := r, p_responded_at := Some now\<rparr> else p)"

definition respond_partnership ::
  "actor \<Rightarrow> nat \<Rightarrow> string option \<Rightarrow> nat \<Rightarrow> db \<Rightarrow> string reply \<times> db" where
  "respond_partnership a pid response now d =
     (case requireRole ''founder'' a of
        Some e \<Rightarrow> (e, d)
      | None \<Rightarrow>
          (case response of
             None \<Rightarrow> (Err 400 respond_message, d)
           | Some r \<Rightarrow>
               if r \<notin> set [''accepted'', ''declined''] then (Err 400 respond_message, d)
               else
                 (case find (\<lambda>(p, s). p_id p = pid)
                         (join_submissions d p_submission_id (partnerships d)) of
                    None \<Rightarrow> (Err 404 ''Partnership not found'', d)
                  | Some (p, s) \<Rightarrow>
                      if s_user_id s \<noteq> a_id a then (Err 403 ''Access denied'', d)
                      else if p_status p \<noteq> ''pending''
                      then (Err 400 ''Partnership already responded to'', d)
                      else
                        (Sent 200 r,
                         d\<lparr>partnerships := map (responded pid r now) (partnerships d)\<rparr>))))"

text \<open>The three partnership requests as one step on the database, and runs of them.\<close>

datatype partner_op =
    Claim actor nat nat
  | Withdraw actor nat
  | Respond actor nat "string option" nat

fun step :: "partner_op \<Rightarrow> db \<Rightarrow> db" where
  "step (Claim a subId now) d = snd (claim_partner a subId now d)"
| "step (Withdraw a subId) d = snd (withdraw_partner a subId d)"
| "step (Respond a pid response now) d = snd (respond_partnership a pid response now d)"

definition run :: "partner_op list \<Rightarrow> db \<Rightarrow> db" where
  "run ops d = fold step ops d"

subsection \<open>POST /auth/register and POST /admin/board-members\<close>

text \<open>
  \<^verbatim>\<open>String.prototype.toLowerCase\<close>. A character stands for one code unit of the JavaScript
  string, so that \<open>length\<close> is \<^verbatim>\<open>.length\<close>; the code units are those below 256, where the
  upper-case letters are A to Z (65 to 90) and the accented capitals 192 to 222 without the
  multiplication sign 215, each 32 below its lower-case letter.
\<close>

definition lower_unit :: "char \<Rightarrow> char" where
  "lower_unit c =
     (let n = of_char c :: nat
      in if (65 \<le> n \<and> n \<le> 90) \<or> (192 \<le> n \<and> n \<le> 222 \<and> n \<noteq> 215) then char_of (n + 32) else c)"

definition toLowerCase :: "string \<Rightarrow> string" where
  "toLowerCase s = map lower_unit s"

text \<open>
  \<^verbatim>\<open>INSERT INTO users (email, password, name, role, specialty)\<close> against the table as declared:
  the statement throws (\<open>None\<close>) when the role fails \<^verbatim>\<open>CHECK(role IN ('founder', 'board'))\<close> or the
  e-mail is already in the table (\<^verbatim>\<open>UNIQUE\<close>).
\<close>

definition insert_user ::
  "string \<Rightarrow> string \<Rightarrow> string \<Rightarrow> string \<Rightarrow> string option \<Rightarrow> db \<Rightarrow> db option" where
  "insert_user email password name role specialty d =
     (if role \<notin> set [''founder'', ''board''] \<or> email \<in> set (map u_email (users d)) then None
      else
        (let rowid = Suc (last_user_id d) in
           Some (d\<lparr>users := users d @
                    [\<lparr>u_id = rowid, u_email = email, u_password = password, u_name = name,
                      u_role = role, u_specialty = specialty\<rparr>],
                   last_user_id := rowid\<rparr>)))"

text \<open>\<^verbatim>\<open>SELECT id, email, name, role FROM users WHERE id = ?\<close>: the row a creation route answers.\<close>

record account =
  acc_id :: nat
  acc_email :: string
  acc_name :: string
  acc_role :: string

definition account_of :: "user \<Rightarrow> account" where
  "account_of u =
     \<lparr>acc_id = u_id u, acc_email = u_email u, acc_name = u_name u, acc_role = u_role u\<rparr>"

definition account_by_id :: "db \<Rightarrow> nat \<Rightarrow> account option" where
  "account_by_id d i = map_option account_of (user_by_id d i)"

text \<open>\<^verbatim>\<open>createToken(user)\<close>: the payload \<^verbatim>\<open>{ id, role }\<close> a later request presents; signing is left out.\<close>

definition createToken :: "account \<Rightarrow> actor" where
  "createToken user = \<lparr>a_id = acc_id user, a_role = acc_role user\<rparr>"

text \<open>
  The register route. A body field is \<open>None\<close> when it is missing, a string otherwise;
  \<^verbatim>\<open>bcrypt.hashSync(password, 10)\<close> is the parameter \<open>hashSync\<close>. After the insert the route
  selects the user whose id is \<^verbatim>\<open>result.lastInsertRowid\<close> and makes the token from it;
  \<^verbatim>\<open>createToken\<close> throws when the query found nothing.
\<close>

definition register ::
  "(string \<Rightarrow> string) \<Rightarrow> string option \<Rightarrow> string option \<Rightarrow> string option \<Rightarrow> db \<Rightarrow>
     (account \<times> actor) reply \<times> db" where
  "register hashSync name email password d =
     (case (name, email, password) of
        (Some nm, Some em, Some pw) \<Rightarrow>
          if nm = [] \<or> em = [] \<or> pw = []
          then (Err 400 ''Name, email, and password are required'', d)
          else if length pw < 8
          then (Err 400 ''Password must be at least 8 characters'', d)
          else if find (\<lambda>u. u_email u = toLowerCase em) (users d) \<noteq> None
          then (Err 409 ''An account with this email already exists'', d)
          else
            (case insert_user (toLowerCase em) (hashSync pw) nm ''founder'' None d of
               None \<Rightarrow> (Uncaught, d)
             | Some d' \<Rightarrow>
                 (let result = run_result in
                    case account_by_id d' (lastInsertRowid result) of
                      None \<Rightarrow> (Uncaught, d')
                    | Some user \<Rightarrow> (Sent 201 (user, createToken user), d')))
      | _ \<Rightarrow> (Err 400 ''Name, email, and password are required'', d))"

text \<open>
  The admin route that creates a board member; \<^verbatim>\<open>specialty || null\<close> drops an empty one. The
  answer carries the user whose id is \<^verbatim>\<open>result.lastInsertRowid\<close>, with its specialty, \<open>None\<close>
  where that query finds nothing (\<^verbatim>\<open>undefined\<close>).
\<close>

definition create_board_member ::
  "(string \<Rightarrow> string) \<Rightarrow> actor \<Rightarrow> string option \<Rightarrow> string option \<Rightarrow> string option \<Rightarrow>
     string option \<Rightarrow> db \<Rightarrow> (account \<times> string option) option reply \<times> db" where
  "create_board_member hashSync a name email password specialty d =
     (case requireRole ''admin'' a of
        Some e \<Rightarrow> (e, d)
      | None \<Rightarrow>
          (case (name, email, password) of
             (Some nm, Some em, Some pw) \<Rightarrow>
               if nm = [] \<or> em = [] \<or> pw = []
               then (Err 400 ''Name, email, and password required'', d)
               else if find (\<lambda>u. u_email u = toLowerCase em) (users d) \<noteq> None
               then (Err 409 ''Email already exists'', d)
               else
                 (case insert_user (toLowerCase em) (hashSync pw) nm ''board''
                         (if specialty = Some [] then None else specialty) d of
                    None \<Rightarrow> (Uncaught, d)
                  | Some d' \<Rightarrow>
                      (let result = run_result in
                         case user_by_id d' (lastInsertRowid result) of
                           Some u \<Rightarrow> (Sent 201 (Some (account_of u, u_specialty u)), d')
                         | None \<Rightarrow> (Sent 201 None, d')))
           | _ \<Rightarrow> (Err 400 ''Name, email, and password required'', d)))"

text \<open>The two routes that create users as one step on the database, and runs of them.\<close>

datatype user_op =
    Register "string option" "string option" "string option"
  | CreateBoardMember actor "string option" "string option" "string option" "string option"

fun user_step :: "(string \<Rightarrow> string) \<Rightarrow> user_op \<Rightarrow> db \<Rightarrow> db" where
  "user_step hashSync (Register name email password) d =
     snd (register hashSync name email password d)"
| "user_step hashSync (CreateBoardMember a name email password specialty) d =
     snd (create_board_member hashSync a name email password specialty d)"

definition run_users :: "(string \<Rightarrow> string) \<Rightarrow> user_op list \<Rightarrow> db \<Rightarrow> db" where
  "run_users hashSync ops d = fold (user_step hashSync) ops d"

subsection \<open>GET /analytics\<close>

text \<open>\<^verbatim>\<open>Math.round\<close>: the nearest integer, a tie going up.\<close>

definition Math_round :: "rat \<Rightarrow> int" where
  "Math_round y = \<lfloor>y + 1 / 2\<rfloor>"

text \<open>
  \<^verbatim>\<open>(approved + passed) > 0 ? Math.round((approved / (approved + passed)) * 100) : 0\<close>
  on two row counts (below \<open>2 ^ 53\<close>, so exact as doubles).
\<close>

definition approvalRate :: "nat \<Rightarrow> nat \<Rightarrow> int" where
  "approvalRate approved passed =
     (if approved + passed > 0
      then Math_round (fl (fl (of_nat approved / of_nat (approved + passed)) * 100))
      else 0)"

text \<open>A value in a JSON answer.\<close>

datatype js_value = JsNull | JsNumber rat | JsString string

text \<open>
  The part of the analytics answer built from the totals, the rating average and the approval
  rate; the grouped counts, the weekly volume and the top-rated list are left out.
  \<^verbatim>\<open>AVG(rating)\<close> over the rated rows is \<^verbatim>\<open>NULL\<close> when there is none and the parameter \<open>sql_avg\<close>
  of their cells otherwise; \<^verbatim>\<open>toFixed(1)\<close> is the parameter \<open>toFixed1\<close>.
\<close>

record analytics_view =
  an_total :: nat
  an_avgRating :: js_value
  an_approvalRate :: int

definition count_status :: "db \<Rightarrow> string \<Rightarrow> nat" where
  "count_status d st = length (filter (\<lambda>s. s_status s = st) (submissions d))"

definition avg_rating :: "(sql_value list \<Rightarrow> rat) \<Rightarrow> db \<Rightarrow> rat option" where
  "avg_rating sql_avg d =
     (let rated = List.map_filter s_rating (submissions d)
      in if rated = [] then None else Some (sql_avg rated))"

definition analytics ::
  "(sql_value list \<Rightarrow> rat) \<Rightarrow> (rat \<Rightarrow> string) \<Rightarrow> actor \<Rightarrow> db \<Rightarrow> analytics_view reply" where
  "analytics sql_avg toFixed1 a d =
     (case requireRole ''board'' a of
        Some e \<Rightarrow> e
      | None \<Rightarrow>
          (let total = length (submissions d);
               avgRating = avg_rating sql_avg d;
               approved = count_status d ''approved'';
               passed = count_status d ''passed''
           in Sent 200
                \<lparr>an_total = total,
                 an_avgRating =
                   (case avgRating of
                      None \<Rightarrow> JsString ''N/A''
                    | Some x \<Rightarrow> if x = 0 then JsString ''N/A'' else JsString (toFixed1 x)),
                 an_approvalRate = approvalRate approved passed\<rparr>))"

subsection \<open>Constraints of the partnerships table\<close>

text \<open>
  What \<^verbatim>\<open>database.js\<close> declares for the table, as predicates on a database: the primary key
  (ids are distinct and none is beyond the \<^verbatim>\<open>AUTOINCREMENT\<close> counter) and
  \<^verbatim>\<open>UNIQUE(submission_id, user_id)\<close>; and the cap the claim route checks, taken over all
  submissions.
\<close>

definition primary_key :: "db \<Rightarrow> bool" where
  "primary_key d =
     (distinct (map p_id (partnerships d)) \<and>
      list_all (\<lambda>p. p_id p \<le> last_partnership_id d) (partnerships d))"

definition unique_pair :: "db \<Rightarrow> bool" where
  "unique_pair d = distinct (map (\<lambda>p. (p_submission_id p, p_user_id p)) (partnerships d))"

definition within_cap :: "db \<Rightarrow> bool" where
  "within_cap d = (\<forall>subId. active_count d subId \<le> 3)"

text \<open>For the users table: every role passes \<^verbatim>\<open>CHECK(role IN ('founder', 'board'))\<close>.\<close>

definition role_check :: "db \<Rightarrow> bool" where
  "role_check d = list_all (\<lambda>u. u_role u = ''founder'' \<or> u_role u = ''board'') (users d)"

section \<open>A concrete database\<close>

text \<open>
  The demo rows of \<^verbatim>\<open>seedDatabase\<close>: the founder, the first two board members, the three
  submissions and the four notes, with the days of the seed's dates as timestamps.
\<close>

definition seed_users :: "user list" where
  "seed_users =
    [\<lparr>u_id = 1, u_email = ''founder@demo.com'', u_password = ''hp'', u_name = ''Alex Chen'',
      u_role = ''founder'', u_specialty = None\<rparr>,
     \<lparr>u_id = 2, u_email = ''sarah@partner.io'', u_password = ''hp'', u_name = ''Sarah Kingston'',
      u_role = ''board'', u_specialty = Some ''Healthcare & BioTech''\<rparr>,
     \<lparr>u_id = 3, u_email = ''james@partner.io'', u_password = ''hp'', u_name = ''James Morrow'',
      u_role = ''board'', u_specialty = Some ''FinTech & SaaS''\<rparr>]"

definition seed_submissions :: "submission list" where
  "seed_submissions =
    [\<lparr>s_id = 1, s_user_id = 1, s_company_name = ''NeuralPay'', s_one_liner = ''AI-powered fraud detection'',
      s_industry = ''FinTech'', s_status = ''under_review'', s_rating = Some (SqlReal 4), s_submitted_at = 41\<rparr>,
     \<lparr>s_id = 2, s_user_id = 1, s_company_name = ''PayFlow'', s_one_liner = ''Instant cross-border payments'',
      s_industry = ''FinTech'', s_status = ''approved'', s_rating = Some (SqlReal 5), s_submitted_at = 20\<rparr>,
     \<lparr>s_id = 3, s_user_id = 1, s_company_name = ''QuickLedger'', s_one_liner = ''Automated bookkeeping'',
      s_industry = ''FinTech'', s_status = ''passed'', s_rating = Some (SqlReal 2), s_submitted_at = 0\<rparr>]"

definition seed_notes :: "board_note list" where
  "seed_notes =
    [\<lparr>n_id = 1, n_submission_id = 1, n_user_id = 2, n_text = ''Strong product-market fit.'',
      n_founder_visible = True, n_created_at = 44\<rparr>,
     \<lparr>n_id = 2, n_submission_id = 2, n_user_id = 2, n_text = ''Exceptional traction.'',
      n_founder_visible = True, n_created_at = 32\<rparr>,
     \<lparr>n_id = 3, n_submission_id = 2, n_user_id = 3, n_text = ''Internal: verify regulatory compliance.'',
      n_founder_visible = False, n_created_at = 34\<rparr>,
     \<lparr>n_id = 4, n_submission_id = 3, n_user_id = 2, n_text = ''Market too competitive.'',
      n_founder_visible = True, n_created_at = 10\<rparr>]"

definition seed_db :: db where
  "seed_db = \<lparr>users = seed_users, submissions = seed_submissions, board_notes = seed_notes,
     partnerships = [], last_user_id = 3, last_partnership_id = 0\<rparr>"

text \<open>
  The same database after a second founder has registered and submitted, two more board
  members have been created and a note with an earlier time has been added, with the actors
  the examples below use.
\<close>

definition demo_db :: db where
  "demo_db = seed_db
     \<lparr>users := seed_users @
        [\<lparr>u_id = 4, u_email = ''carol@demo.com'', u_password = ''hp'', u_name = ''Carol Diaz'',
          u_role = ''founder'', u_specialty = None\<rparr>,
         \<lparr>u_id = 5, u_email = ''aisha@partner.io'', u_password = ''hp'', u_name = ''Aisha Patel'',
          u_role = ''board'', u_specialty = Some ''AI & Deep Tech''\<rparr>,
         \<lparr>u_id = 6, u_email = ''david@partner.io'', u_password = ''hp'', u_name = ''David Chen'',
          u_role = ''board'', u_specialty = Some ''Operations & Growth''\<rparr>],
      submissions := seed_submissions @
        [\<lparr>s_id = 4, s_user_id = 4, s_company_name = ''LedgerLoop'', s_one_liner = ''Invoices on autopilot'',
          s_industry = ''SaaS'', s_status = ''new'', s_rating = None, s_submitted_at = 50\<rparr>],
      board_notes := seed_notes @
        [\<lparr>n_id = 5, n_submission_id = 2, n_user_id = 3, n_text = ''Backdated: intro call held.'',
          n_founder_visible = True, n_created_at = 30\<rparr>],
      last_user_id := 6\<rparr>"

definition carol :: actor where
  "carol = \<lparr>a_id = 4, a_role = ''founder''\<rparr>"

definition james :: actor where
  "james = \<lparr>a_id = 3, a_role = ''board''\<rparr>"

definition aisha :: actor where
  "aisha = \<lparr>a_id = 5, a_role = ''board''\<rparr>"

definition david :: actor where
  "david = \<lparr>a_id = 6, a_role = ''board''\<rparr>"

definition no_filter :: query where
  "no_filter = \<lparr>q_status = None, q_industry = None, q_search = None\<rparr>"

text \<open>
  The same database once four partnership claims have been made and two of them answered:
  submission 1 holds an accepted and two pending claims, submission 4 a declined one.
\<close>

definition partnered_db :: db where
  "partnered_db = demo_db
     \<lparr>partnerships :=
        [\<lparr>p_id = 1, p_submission_id = 1, p_user_id = 2, p_status = ''accepted'',
          p_created_at = 60, p_responded_at = Some 64\<rparr>,
         \<lparr>p_id = 2, p_submission_id = 1, p_user_id = 5, p_status = ''pending'',
          p_created_at = 61, p_responded_at = None\<rparr>,
         \<lparr>p_id = 3, p_submission_id = 1, p_user_id = 6, p_status = ''pending'',
          p_created_at = 62, p_responded_at = None\<rparr>,
         \<lparr>p_id = 4, p_submission_id = 4, p_user_id = 3, p_status = ''declined'',
          p_created_at = 63, p_responded_at = Some 65\<rparr>],
      last_partnership_id := 4\<rparr>"

text \<open>
  The seeded database after NeuralPay has been approved (two approved, one passed), and the
  seeded database before any rating was given.
\<close>

definition two_approved_db :: db where
  "two_approved_db = update_status ''approved'' 1 seed_db"

definition unrated_db :: db where
  "unrated_db = seed_db\<lparr>submissions := map (\<lambda>s. s\<lparr>s_rating := None\<rparr>) seed_submissions\<rparr>"

text \<open>A token with the role \<^verbatim>\<open>admin\<close>, which no row of the seeded table backs.\<close>

definition forged_admin :: actor where
  "forged_admin = \<lparr>a_id = 99, a_role = ''admin''\<rparr>"

definition sarah :: actor where
  "sarah = \<lparr>a_id = 2, a_role = ''board''\<rparr>"

definition alex :: actor where
  "alex = \<lparr>a_id = 1, a_role = ''founder''\<rparr>"

section \<open>Properties\<close>

subsection \<open>Helper facts\<close>

lemma requireRole_pass: "a_role a = r \<or> a_role a = ''admin'' \<Longrightarrow> requireRole r a = None"
  by (auto simp: requireRole_def)

lemma requireRole_block:
  "a_role a \<noteq> r \<Longrightarrow> a_role a \<noteq> ''admin'' \<Longrightarrow>
   requireRole r a = Some (Err 403 (''Access restricted to '' @ r @ '' members''))"
  by (simp add: requireRole_def)

lemma map_absent_id: "find (\<lambda>s. s_id s = i) xs = None \<Longrightarrow>
  map (\<lambda>s. if s_id s = i then f s else s) xs = xs"
  by (induction xs) (auto split: if_splits)

lemma update_status_absent: "submission_by_id d i = None \<Longrightarrow> update_status st i d = d"
  by (simp add: update_status_def submission_by_id_def map_absent_id)

lemma update_rating_absent: "submission_by_id d i = None \<Longrightarrow> update_rating v i d = d"
  by (simp add: update_rating_def submission_by_id_def map_absent_id)

lemma map_fst_join_users:
  "map fst (join_users d key rows) = filter (\<lambda>r. user_by_id d (key r) \<noteq> None) rows"
  by (induction rows) (auto simp: join_users_def map_filter_simps split: option.splits)

lemma find_join_users_Some:
  "find P rows = Some r \<Longrightarrow> user_by_id d (key r) = Some u \<Longrightarrow>
   find (\<lambda>(r, u). P r) (join_users d key rows) = Some (r, u)"
  by (induction rows) (auto simp: join_users_def map_filter_simps split: option.splits if_splits)

lemma find_join_users_None:
  "find P rows = None \<Longrightarrow> find (\<lambda>(r, u). P r) (join_users d key rows) = None"
  by (induction rows) (auto simp: join_users_def map_filter_simps split: option.splits if_splits)

lemma find_join_users_fst:
  "find (\<lambda>(r, u). P r) (join_users d key rows) = Some (r, u) \<Longrightarrow>
   P r \<and> r \<in> set rows \<and> user_by_id d (key r) = Some u"
  by (induction rows) (auto simp: join_users_def map_filter_simps split: option.splits if_splits)

lemma join_users_mem:
  "(r, u) \<in> set (join_users d key rows) \<Longrightarrow> r \<in> set rows \<and> user_by_id d (key r) = Some u"
  by (induction rows) (auto simp: join_users_def map_filter_simps split: option.splits if_splits)

lemma map_insort_key_fst:
  "map fst (insort_key (\<lambda>(n, u). k n) x xs) = insort_key k (fst x) (map fst xs)"
  by (induction xs) (auto simp: case_prod_beta)

lemma map_fst_sort_key:
  "map fst (sort_key (\<lambda>(n, u). k n) xs) = sort_key k (map fst xs)"
  by (induction xs) (auto simp: map_insort_key_fst)

lemma map_fst_notes_of:
  "map fst (notes_of d a sid) =
   sort_key n_created_at
     (filter (\<lambda>n. n_submission_id n = sid \<and> noteCondition a n \<and> user_by_id d (n_user_id n) \<noteq> None)
        (board_notes d))"
proof -
  have "map fst (notes_of d a sid) =
        map fst (sort_key (\<lambda>(n, u). n_created_at n)
          (filter (\<lambda>(n, u). n_submission_id n = sid \<and> noteCondition a n)
            (join_users d n_user_id (board_notes d))))"
    by (simp add: notes_of_def case_prod_unfold comp_def)
  also have "\<dots> = sort_key n_created_at (map fst
          (filter (\<lambda>(n, u). n_submission_id n = sid \<and> noteCondition a n)
            (join_users d n_user_id (board_notes d))))"
    by (rule map_fst_sort_key)
  also have "map fst (filter (\<lambda>(n, u). n_submission_id n = sid \<and> noteCondition a n)
            (join_users d n_user_id (board_notes d))) =
       filter (\<lambda>n. n_submission_id n = sid \<and> noteCondition a n) (map fst (join_users d n_user_id (board_notes d)))"
    by (simp add: filter_map comp_def case_prod_unfold)
  also have "\<dots> = filter (\<lambda>n. n_submission_id n = sid \<and> noteCondition a n \<and> user_by_id d (n_user_id n) \<noteq> None)
        (board_notes d)"
    by (simp add: map_fst_join_users conj_commute conj_left_commute)
  finally show ?thesis .
qed

lemma submission_with_founder_Some:
  "submission_by_id d i = Some s \<Longrightarrow> user_by_id d (s_user_id s) = Some u \<Longrightarrow>
   submission_with_founder d i = Some (s, u)"
  unfolding submission_with_founder_def submission_by_id_def
  by (rule find_join_users_Some)

lemma submission_with_founder_None:
  "submission_by_id d i = None \<Longrightarrow> submission_with_founder d i = None"
  unfolding submission_with_founder_def submission_by_id_def
  by (rule find_join_users_None)

lemma list_submissions_scope:
  assumes "a_role a = ''founder''"
  shows "\<exists>vs. list_submissions a q d = Sent 200 vs \<and>
              (\<forall>v\<in>set vs. s_user_id (v_submission v) = a_id a)"
  using assms
  by (auto simp: list_submissions_def conditions_def)

lemmas demo_defs = demo_db_def seed_db_def seed_users_def seed_submissions_def seed_notes_def

subsection \<open>Submissions of other founders\<close>

text \<open>
  Claim C1. Let \<open>a\<close> be an authenticated founder. Fetching a submission that exists (its row
  and its owner's row, which the query joins) and belongs to someone else answers
  403; fetching an id that no submission carries answers 404, so the existence check comes
  first. Every submission in the list answered to \<open>a\<close> is owned by \<open>a\<close>, so the list never
  contains a submission of another founder. Setting the status or the rating of any
  submission is answered 403 and leaves the database as it was.
\<close>

theorem founder_cannot_reach_foreign_submission:
  assumes "a_role a = ''founder''"
  shows "(submission_by_id d i = Some s \<and> user_by_id d (s_user_id s) \<noteq> None \<and> s_user_id s \<noteq> a_id a
            \<longrightarrow> get_submission a i d = Err 403 ''Access denied'') \<and>
         (submission_by_id d i = None \<longrightarrow> get_submission a i d = Err 404 ''Submission not found'') \<and>
         (\<exists>vs. list_submissions a q d = Sent 200 vs \<and>
               (\<forall>v\<in>set vs. s_user_id (v_submission v) = a_id a)) \<and>
         patch_status a i st d = (Err 403 ''Access restricted to board members'', d) \<and>
         patch_rating a i v d = (Err 403 ''Access restricted to board members'', d)"
proof (intro conjI impI)
  assume h: "submission_by_id d i = Some s \<and> user_by_id d (s_user_id s) \<noteq> None \<and> s_user_id s \<noteq> a_id a"
  then obtain u where "user_by_id d (s_user_id s) = Some u" by auto
  with h have "submission_with_founder d i = Some (s, u)"
    by (simp add: submission_with_founder_Some)
  with h assms show "get_submission a i d = Err 403 ''Access denied''"
    by (simp add: get_submission_def)
next
  assume "submission_by_id d i = None"
  then show "get_submission a i d = Err 404 ''Submission not found''"
    by (simp add: get_submission_def submission_with_founder_None)
next
  show "\<exists>vs. list_submissions a q d = Sent 200 vs \<and>
               (\<forall>v\<in>set vs. s_user_id (v_submission v) = a_id a)"
    using assms by (rule list_submissions_scope)
next
  show "patch_status a i st d = (Err 403 ''Access restricted to board members'', d)"
    using assms by (simp add: patch_status_def requireRole_def)
next
  show "patch_rating a i v d = (Err 403 ''Access restricted to board members'', d)"
    using assms by (simp add: patch_rating_def requireRole_def)
qed

lemma demo_list_carol:
  "list_submissions carol no_filter demo_db =
     Sent 200 [\<lparr>v_submission = last (submissions demo_db), v_founder_name = ''Carol Diaz'', v_notes = []\<rparr>]"
  by (simp add: list_submissions_def conditions_def join_users_def map_filter_simps user_by_id_def
        notes_of_def noteCondition_def demo_defs carol_def no_filter_def)

theorem founder_cannot_reach_foreign_submission_witness:
  "a_role carol = ''founder'' \<and>
   map_option s_user_id (submission_by_id demo_db 1) = Some 1 \<and> a_id carol = 4 \<and>
   submission_by_id demo_db 9 = None \<and>
   get_submission carol 1 demo_db = Err 403 ''Access denied'' \<and>
   get_submission carol 9 demo_db = Err 404 ''Submission not found'' \<and>
   list_submissions carol no_filter demo_db =
     Sent 200 [\<lparr>v_submission = last (submissions demo_db), v_founder_name = ''Carol Diaz'', v_notes = []\<rparr>] \<and>
   s_id (last (submissions demo_db)) = 4 \<and>
   fst (patch_status carol 1 (Some ''approved'') demo_db) = Err 403 ''Access restricted to board members'' \<and>
   fst (patch_rating carol 1 (JNumber 5) demo_db) = Err 403 ''Access restricted to board members''"
proof -
  have r: "a_role carol = ''founder''" and c4: "a_id carol = 4" by (simp_all add: carol_def)
  have s1: "submission_by_id demo_db 1 = Some (hd seed_submissions)"
    by (simp add: submission_by_id_def demo_defs)
  have o1: "user_by_id demo_db (s_user_id (hd seed_submissions)) \<noteq> None \<and>
            s_user_id (hd seed_submissions) \<noteq> a_id carol"
    by (simp add: user_by_id_def demo_defs carol_def)
  have o: "map_option s_user_id (submission_by_id demo_db 1) = Some 1"
    unfolding s1 by (simp add: seed_submissions_def)
  have s9: "submission_by_id demo_db 9 = None"
    by (simp add: submission_by_id_def demo_defs)
  have l4: "s_id (last (submissions demo_db)) = 4" by (simp add: demo_defs)
  note t1 = founder_cannot_reach_foreign_submission
      [OF r, of demo_db 1 "hd seed_submissions" no_filter "Some ''approved''" "JNumber 5"]
  note t9 = founder_cannot_reach_foreign_submission
      [OF r, of demo_db 9 "hd seed_submissions" no_filter "Some ''approved''" "JNumber 5"]
  from t1 s1 o1 have a: "get_submission carol 1 demo_db = Err 403 ''Access denied''" by blast
  from t9 s9 have b: "get_submission carol 9 demo_db = Err 404 ''Submission not found''" by blast
  from t1 have c: "fst (patch_status carol 1 (Some ''approved'') demo_db) = Err 403 ''Access restricted to board members''"
    and e: "fst (patch_rating carol 1 (JNumber 5) demo_db) = Err 403 ''Access restricted to board members''"
    by simp_all
  from r c4 o s9 a b demo_list_carol l4 c e show ?thesis by simp
qed

lemma notes_of_founder:
  assumes fk: "\<forall>n\<in>set (board_notes d). user_by_id d (n_user_id n) \<noteq> None"
    and "a_role a = ''founder''"
  shows "map fst (notes_of d a i) =
         sort_key n_created_at (filter (\<lambda>n. n_submission_id n = i \<and> n_founder_visible n) (board_notes d))"
proof -
  have "filter (\<lambda>n. n_submission_id n = i \<and> noteCondition a n \<and> user_by_id d (n_user_id n) \<noteq> None) (board_notes d)
      = filter (\<lambda>n. n_submission_id n = i \<and> n_founder_visible n) (board_notes d)"
    using assms by (intro filter_cong) (auto simp: noteCondition_def)
  then show ?thesis by (simp add: map_fst_notes_of)
qed

lemma notes_of_board:
  assumes fk: "\<forall>n\<in>set (board_notes d). user_by_id d (n_user_id n) \<noteq> None"
    and "a_role a \<noteq> ''founder''"
  shows "map fst (notes_of d a i) =
         sort_key n_created_at (filter (\<lambda>n. n_submission_id n = i) (board_notes d))"
proof -
  have "filter (\<lambda>n. n_submission_id n = i \<and> noteCondition a n \<and> user_by_id d (n_user_id n) \<noteq> None) (board_notes d)
      = filter (\<lambda>n. n_submission_id n = i) (board_notes d)"
    using assms by (intro filter_cong) (auto simp: noteCondition_def)
  then show ?thesis by (simp add: map_fst_notes_of)
qed

lemma sorted_notes_of: "sorted (map (\<lambda>(n, name). n_created_at n) (notes_of d a i))"
proof -
  have "map (\<lambda>(n, name). n_created_at n) (notes_of d a i) = map n_created_at (map fst (notes_of d a i))"
    by (simp add: case_prod_unfold comp_def)
  then show ?thesis by (simp add: map_fst_notes_of)
qed

lemma get_submission_owner_or_board:
  assumes "submission_by_id d i = Some s" "user_by_id d (s_user_id s) = Some u"
    and "a_role a = ''founder'' \<longrightarrow> s_user_id s = a_id a"
  shows "get_submission a i d =
      Sent 200 \<lparr>v_submission = s, v_founder_name = u_name u, v_notes = notes_of d a i\<rparr>"
proof -
  have "submission_with_founder d i = Some (s, u)"
    using assms by (simp add: submission_with_founder_Some)
  moreover have "s_id s = i"
    using assms(1) unfolding submission_by_id_def by (auto dest: find_Some_iff[THEN iffD1])
  ultimately show ?thesis using assms(3) by (auto simp: get_submission_def)
qed

lemma list_submissions_notes:
  "\<exists>vs. list_submissions a q d = Sent 200 vs \<and>
     (\<forall>v\<in>set vs. v_notes v = notes_of d a (s_id (v_submission v)))"
  by (auto simp: list_submissions_def)

subsection \<open>Board notes\<close>

text \<open>
  Claim C5. In a database where every note's author exists (the query joins each note with
  its author's row), let \<open>s\<close> be the submission with id \<open>i\<close>, its owner's row present.
  The owning founder who fetches it receives exactly its notes with \<open>founder_visible\<close> set,
  in ascending order of creation time; a board member receives every note of the
  submission, whatever the flag, in the same order. The list route attaches the notes of
  each submission by the same rule.
\<close>

theorem notes_by_reader:
  assumes fk: "\<forall>n\<in>set (board_notes d). user_by_id d (n_user_id n) \<noteq> None"
    and sub: "submission_by_id d i = Some s"
    and owner: "user_by_id d (s_user_id s) \<noteq> None"
  shows
    "(a_role a = ''founder'' \<and> s_user_id s = a_id a \<longrightarrow>
        (\<exists>v. get_submission a i d = Sent 200 v \<and>
           map fst (v_notes v) =
             sort_key n_created_at
               (filter (\<lambda>n. n_submission_id n = i \<and> n_founder_visible n) (board_notes d)) \<and>
           fst ` set (v_notes v) =
             {n \<in> set (board_notes d). n_submission_id n = i \<and> n_founder_visible n} \<and>
           sorted (map (\<lambda>(n, name). n_created_at n) (v_notes v)))) \<and>
     (a_role a = ''board'' \<longrightarrow>
        (\<exists>v. get_submission a i d = Sent 200 v \<and>
           map fst (v_notes v) =
             sort_key n_created_at (filter (\<lambda>n. n_submission_id n = i) (board_notes d)) \<and>
           fst ` set (v_notes v) = {n \<in> set (board_notes d). n_submission_id n = i} \<and>
           sorted (map (\<lambda>(n, name). n_created_at n) (v_notes v)))) \<and>
     (\<exists>vs. list_submissions a q d = Sent 200 vs \<and>
        (\<forall>v\<in>set vs.
           map fst (v_notes v) =
             sort_key n_created_at
               (filter (\<lambda>n. n_submission_id n = s_id (v_submission v) \<and>
                             (if a_role a = ''founder'' then n_founder_visible n else True))
                  (board_notes d))))"
proof -
  from owner obtain u where u: "user_by_id d (s_user_id s) = Some u" by auto
  have founder: "a_role a = ''founder'' \<and> s_user_id s = a_id a \<longrightarrow>
        (\<exists>v. get_submission a i d = Sent 200 v \<and>
           map fst (v_notes v) =
             sort_key n_created_at
               (filter (\<lambda>n. n_submission_id n = i \<and> n_founder_visible n) (board_notes d)) \<and>
           fst ` set (v_notes v) =
             {n \<in> set (board_notes d). n_submission_id n = i \<and> n_founder_visible n} \<and>
           sorted (map (\<lambda>(n, name). n_created_at n) (v_notes v)))"
  proof
    assume h: "a_role a = ''founder'' \<and> s_user_id s = a_id a"
    let ?v = "\<lparr>v_submission = s, v_founder_name = u_name u, v_notes = notes_of d a i\<rparr>"
    have g: "get_submission a i d = Sent 200 ?v"
      using sub u h by (intro get_submission_owner_or_board) auto
    have m: "map fst (notes_of d a i) = sort_key n_created_at
               (filter (\<lambda>n. n_submission_id n = i \<and> n_founder_visible n) (board_notes d))"
      using fk h by (intro notes_of_founder) auto
    have "set (map fst (notes_of d a i)) =
            {n \<in> set (board_notes d). n_submission_id n = i \<and> n_founder_visible n}"
      unfolding m by auto
    then have st: "fst ` set (notes_of d a i) =
            {n \<in> set (board_notes d). n_submission_id n = i \<and> n_founder_visible n}"
      by simp
    show "\<exists>v. get_submission a i d = Sent 200 v \<and>
           map fst (v_notes v) =
             sort_key n_created_at
               (filter (\<lambda>n. n_submission_id n = i \<and> n_founder_visible n) (board_notes d)) \<and>
           fst ` set (v_notes v) =
             {n \<in> set (board_notes d). n_submission_id n = i \<and> n_founder_visible n} \<and>
           sorted (map (\<lambda>(n, name). n_created_at n) (v_notes v))"
      using g m st sorted_notes_of[of d a i] by (intro exI[of _ ?v]) simp
  qed
  have board: "a_role a = ''board'' \<longrightarrow>
        (\<exists>v. get_submission a i d = Sent 200 v \<and>
           map fst (v_notes v) =
             sort_key n_created_at (filter (\<lambda>n. n_submission_id n = i) (board_notes d)) \<and>
           fst ` set (v_notes v) = {n \<in> set (board_notes d). n_submission_id n = i} \<and>
           sorted (map (\<lambda>(n, name). n_created_at n) (v_notes v)))"
  proof
    assume h: "a_role a = ''board''"
    let ?v = "\<lparr>v_submission = s, v_founder_name = u_name u, v_notes = notes_of d a i\<rparr>"
    have g: "get_submission a i d = Sent 200 ?v"
      using sub u h by (intro get_submission_owner_or_board) auto
    have m: "map fst (notes_of d a i) =
               sort_key n_created_at (filter (\<lambda>n. n_submission_id n = i) (board_notes d))"
      using fk h by (intro notes_of_board) auto
    have "set (map fst (notes_of d a i)) = {n \<in> set (board_notes d). n_submission_id n = i}"
      unfolding m by auto
    then have st: "fst ` set (notes_of d a i) = {n \<in> set (board_notes d). n_submission_id n = i}"
      by simp
    show "\<exists>v. get_submission a i d = Sent 200 v \<and>
           map fst (v_notes v) =
             sort_key n_created_at (filter (\<lambda>n. n_submission_id n = i) (board_notes d)) \<and>
           fst ` set (v_notes v) = {n \<in> set (board_notes d). n_submission_id n = i} \<and>
           sorted (map (\<lambda>(n, name). n_created_at n) (v_notes v))"
      using g m st sorted_notes_of[of d a i] by (intro exI[of _ ?v]) simp
  qed
  have all: "map fst (notes_of d a j) =
             sort_key n_created_at
               (filter (\<lambda>n. n_submission_id n = j \<and>
                             (if a_role a = ''founder'' then n_founder_visible n else True))
                  (board_notes d))" for j
    using notes_of_founder[OF fk, of a j] notes_of_board[OF fk, of a j]
    by (cases "a_role a = ''founder''") simp_all
  have lst: "\<exists>vs. list_submissions a q d = Sent 200 vs \<and>
        (\<forall>v\<in>set vs.
           map fst (v_notes v) =
             sort_key n_created_at
               (filter (\<lambda>n. n_submission_id n = s_id (v_submission v) \<and>
                             (if a_role a = ''founder'' then n_founder_visible n else True))
                  (board_notes d)))"
    using list_submissions_notes[of a q d] all by auto
  from founder board lst show ?thesis by blast
qed

theorem notes_by_reader_witness:
  "list_all (\<lambda>n. user_by_id demo_db (n_user_id n) \<noteq> None) (board_notes demo_db) \<and>
   map_option s_user_id (submission_by_id demo_db 2) = Some (a_id alex) \<and>
   map (\<lambda>n. (n_id n, n_founder_visible n, n_created_at n))
     (filter (\<lambda>n. n_submission_id n = 2) (board_notes demo_db)) =
     [(2, True, 32), (3, False, 34), (5, True, 30)] \<and>
   (\<exists>v. get_submission alex 2 demo_db = Sent 200 v \<and> map (n_id \<circ> fst) (v_notes v) = [5, 2]) \<and>
   (\<exists>v. get_submission sarah 2 demo_db = Sent 200 v \<and> map (n_id \<circ> fst) (v_notes v) = [5, 2, 3])"
proof -
  let ?s = "hd (tl seed_submissions)"
  have fk: "\<forall>n\<in>set (board_notes demo_db). user_by_id demo_db (n_user_id n) \<noteq> None"
    by (simp add: demo_defs user_by_id_def)
  have sub: "submission_by_id demo_db 2 = Some ?s"
    by (simp add: submission_by_id_def demo_defs)
  have owner: "user_by_id demo_db (s_user_id ?s) \<noteq> None"
    by (simp add: user_by_id_def demo_defs)
  have own: "map_option s_user_id (submission_by_id demo_db 2) = Some (a_id alex)"
    unfolding sub by (simp add: seed_submissions_def alex_def)
  have rows: "map (\<lambda>n. (n_id n, n_founder_visible n, n_created_at n))
     (filter (\<lambda>n. n_submission_id n = 2) (board_notes demo_db)) =
     [(2, True, 32), (3, False, 34), (5, True, 30)]"
    by (simp add: demo_defs)
  have vis: "map n_id (sort_key n_created_at
      (filter (\<lambda>n. n_submission_id n = 2 \<and> n_founder_visible n) (board_notes demo_db))) = [5, 2]"
    by (simp add: demo_defs)
  have every: "map n_id (sort_key n_created_at
      (filter (\<lambda>n. n_submission_id n = 2) (board_notes demo_db))) = [5, 2, 3]"
    by (simp add: demo_defs)
  have ra: "a_role alex = ''founder'' \<and> s_user_id ?s = a_id alex"
    by (simp add: alex_def seed_submissions_def)
  have rs: "a_role sarah = ''board''" by (simp add: sarah_def)
  from notes_by_reader [OF fk sub owner, of alex no_filter] ra
  obtain v where v: "get_submission alex 2 demo_db = Sent 200 v"
    "map fst (v_notes v) = sort_key n_created_at
       (filter (\<lambda>n. n_submission_id n = 2 \<and> n_founder_visible n) (board_notes demo_db))"
    by blast
  have "map (n_id \<circ> fst) (v_notes v) = map n_id (map fst (v_notes v))" by simp
  also have "\<dots> = [5, 2]" unfolding v(2) by (rule vis)
  finally have "map (n_id \<circ> fst) (v_notes v) = [5, 2]" .
  with v(1) have a: "\<exists>v. get_submission alex 2 demo_db = Sent 200 v \<and> map (n_id \<circ> fst) (v_notes v) = [5, 2]"
    by (intro exI[of _ v] conjI)
  from notes_by_reader [OF fk sub owner, of sarah no_filter] rs
  obtain w where w: "get_submission sarah 2 demo_db = Sent 200 w"
    "map fst (v_notes w) = sort_key n_created_at
       (filter (\<lambda>n. n_submission_id n = 2) (board_notes demo_db))"
    by blast
  have "map (n_id \<circ> fst) (v_notes w) = map n_id (map fst (v_notes w))" by simp
  also have "\<dots> = [5, 2, 3]" unfolding w(2) by (rule every)
  finally have "map (n_id \<circ> fst) (v_notes w) = [5, 2, 3]" .
  with w(1) have b: "\<exists>v. get_submission sarah 2 demo_db = Sent 200 v \<and> map (n_id \<circ> fst) (v_notes v) = [5, 2, 3]"
    by (intro exI[of _ w] conjI)
  from fk have "list_all (\<lambda>n. user_by_id demo_db (n_user_id n) \<noteq> None) (board_notes demo_db)"
    by (simp only: list_all_iff)
  with own rows a b show ?thesis by (intro conjI)
qed

subsection \<open>Status and rating writes\<close>

text \<open>
  Claim C10. For a board member or admin, a valid status and a rating from 1 to 5, setting the
  status or the rating of an id that no submission carries is answered 200 with the value
  sent, and the database, every submission included, is as it was: no 404 is raised.
\<close>

theorem missing_submission_update_succeeds:
  "\<lbrakk>a_role a = ''board'' \<or> a_role a = ''admin''; submission_by_id d i = None;
    st \<in> set valid_statuses; 1 \<le> r; r \<le> 5\<rbrakk> \<Longrightarrow>
   patch_status a i (Some st) d = (Sent 200 st, d) \<and>
   patch_rating a i (JNumber r) d = (Sent 200 (JNumber r), d)"
  by (auto simp: patch_status_def patch_rating_def requireRole_pass
      update_status_absent update_rating_absent)

theorem missing_submission_update_succeeds_witness:
  "submission_by_id seed_db 99 = None \<and>
   patch_status sarah 99 (Some ''approved'') seed_db = (Sent 200 ''approved'', seed_db) \<and>
   patch_rating sarah 99 (JNumber 3) seed_db = (Sent 200 (JNumber 3), seed_db)"
proof -
  have r: "a_role sarah = ''board'' \<or> a_role sarah = ''admin''" by (simp add: sarah_def)
  have n: "submission_by_id seed_db 99 = None"
    by (simp add: submission_by_id_def seed_db_def seed_submissions_def)
  have v: "''approved'' \<in> set valid_statuses" by (simp add: valid_statuses_def)
  show ?thesis
    using missing_submission_update_succeeds [OF r n v, of 3] n by simp
qed

lemma half_not_int: "(5 / 2 :: rat) \<notin> \<int>"
proof
  assume "(5 / 2 :: rat) \<in> \<int>"
  then obtain k :: int where "(5 / 2 :: rat) = of_int k" by (auto elim: Ints_cases)
  then have "of_int (2 * k) = (of_int 5 :: rat)" by simp
  then have "2 * k = 5" by (simp only: of_int_eq_iff)
  then show False by presburger
qed

text \<open>
  Claim C6, as stated, fails: the route accepts the rating 2.5, which is no integer, and
  stores it. Nor is every other value rejected: the guard has no test of the type, and the
  rating \<^verbatim>\<open>true\<close> passes it and is stored as 1.
\<close>

theorem rating_accepts_non_integer:
  "fst (patch_rating sarah 1 (JNumber (5 / 2)) seed_db) = Sent 200 (JNumber (5 / 2)) \<and>
   map s_rating (submissions (snd (patch_rating sarah 1 (JNumber (5 / 2)) seed_db))) =
     [Some (SqlReal (5 / 2)), Some (SqlReal 5), Some (SqlReal 2)] \<and>
   (5 / 2 :: rat) \<notin> \<int> \<and>
   fst (patch_rating sarah 1 (JBool True) seed_db) = Sent 200 (JBool True) \<and>
   map s_rating (submissions (snd (patch_rating sarah 1 (JBool True) seed_db))) =
     [Some (SqlReal 1), Some (SqlReal 5), Some (SqlReal 2)]"
  using half_not_int
  by (simp add: patch_rating_def requireRole_def sarah_def update_rating_def seed_db_def
      seed_submissions_def)

text \<open>
  Claim C6, amended. The rating route is open to board members and admins only (anyone else
  is answered 403). From them it rejects a missing or \<^verbatim>\<open>null\<close> rating and every number below 1
  or above 5 with 400, and accepts every number from 1 to 5, whole or not: the answer is 200
  with the rating, and every submission with the id has exactly that rating afterwards,
  nothing else changed. A later write replaces an earlier one without trace. What the route
  does with a rating that is no number is not part of the statement.
\<close>

theorem rating_write:
  "(a_role a \<noteq> ''board'' \<and> a_role a \<noteq> ''admin'' \<longrightarrow>
      patch_rating a i v d = (Err 403 ''Access restricted to board members'', d)) \<and>
   (a_role a = ''board'' \<or> a_role a = ''admin'' \<longrightarrow>
      patch_rating a i JUndefined d = (Err 400 ''Rating must be between 1 and 5'', d) \<and>
      patch_rating a i JNull d = (Err 400 ''Rating must be between 1 and 5'', d) \<and>
      (r < 1 \<or> 5 < r \<longrightarrow>
         patch_rating a i (JNumber r) d = (Err 400 ''Rating must be between 1 and 5'', d)) \<and>
      (1 \<le> r \<and> r \<le> 5 \<longrightarrow>
         patch_rating a i (JNumber r) d =
           (Sent 200 (JNumber r),
            d\<lparr>submissions :=
                map (\<lambda>s. if s_id s = i then s\<lparr>s_rating := Some (SqlReal r)\<rparr> else s) (submissions d)\<rparr>) \<and>
         (1 \<le> r0 \<and> r0 \<le> 5 \<longrightarrow>
            snd (patch_rating a i (JNumber r) (snd (patch_rating a i (JNumber r0) d))) =
            snd (patch_rating a i (JNumber r) d))))"
proof (intro conjI impI)
  assume "a_role a \<noteq> ''board'' \<and> a_role a \<noteq> ''admin''"
  then show "patch_rating a i v d = (Err 403 ''Access restricted to board members'', d)"
    by (simp add: patch_rating_def requireRole_def)
next
  assume "a_role a = ''board'' \<or> a_role a = ''admin''"
  then show "patch_rating a i JUndefined d = (Err 400 ''Rating must be between 1 and 5'', d)"
    by (simp add: patch_rating_def requireRole_pass)
next
  assume "a_role a = ''board'' \<or> a_role a = ''admin''"
  then show "patch_rating a i JNull d = (Err 400 ''Rating must be between 1 and 5'', d)"
    by (simp add: patch_rating_def requireRole_pass)
next
  assume "a_role a = ''board'' \<or> a_role a = ''admin''" "r < 1 \<or> 5 < r"
  then show "patch_rating a i (JNumber r) d = (Err 400 ''Rating must be between 1 and 5'', d)"
    by (auto simp: patch_rating_def requireRole_pass)
next
  assume "a_role a = ''board'' \<or> a_role a = ''admin''" "1 \<le> r \<and> r \<le> 5"
  then show "patch_rating a i (JNumber r) d =
           (Sent 200 (JNumber r),
            d\<lparr>submissions :=
                map (\<lambda>s. if s_id s = i then s\<lparr>s_rating := Some (SqlReal r)\<rparr> else s) (submissions d)\<rparr>)"
    by (auto simp: patch_rating_def requireRole_pass update_rating_def)
next
  assume "a_role a = ''board'' \<or> a_role a = ''admin''" "1 \<le> r \<and> r \<le> 5" "1 \<le> r0 \<and> r0 \<le> 5"
  then show "snd (patch_rating a i (JNumber r) (snd (patch_rating a i (JNumber r0) d))) =
            snd (patch_rating a i (JNumber r) d)"
    by (auto simp: patch_rating_def requireRole_pass update_rating_def)
qed

theorem rating_write_witness:
  "a_role carol \<noteq> ''board'' \<and> a_role carol \<noteq> ''admin'' \<and> a_role sarah = ''board'' \<and>
   fst (patch_rating carol 1 (JNumber 3) seed_db) = Err 403 ''Access restricted to board members'' \<and>
   fst (patch_rating sarah 1 (JNumber (11 / 2)) seed_db) = Err 400 ''Rating must be between 1 and 5'' \<and>
   fst (patch_rating sarah 1 (JNumber (9 / 2)) seed_db) = Sent 200 (JNumber (9 / 2)) \<and>
   map s_rating (submissions (snd (patch_rating sarah 1 (JNumber (9 / 2)) seed_db))) =
     [Some (SqlReal (9 / 2)), Some (SqlReal 5), Some (SqlReal 2)] \<and>
   snd (patch_rating sarah 1 (JNumber (9 / 2)) (snd (patch_rating sarah 1 (JNumber 1) seed_db))) =
     snd (patch_rating sarah 1 (JNumber (9 / 2)) seed_db)"
proof -
  have c: "a_role carol \<noteq> ''board'' \<and> a_role carol \<noteq> ''admin''" by (simp add: carol_def)
  have s: "a_role sarah = ''board''" by (simp add: sarah_def)
  note tc = rating_write [of carol 1 "JNumber 3" seed_db 3 3]
  note thi = rating_write [of sarah 1 "JNumber 3" seed_db "11 / 2" 1]
  note tok = rating_write [of sarah 1 "JNumber 3" seed_db "9 / 2" 1]
  from tc c have 1: "fst (patch_rating carol 1 (JNumber 3) seed_db) = Err 403 ''Access restricted to board members''"
    by simp
  from thi s have 2: "fst (patch_rating sarah 1 (JNumber (11 / 2)) seed_db) = Err 400 ''Rating must be between 1 and 5''"
    by simp
  from tok s have 3: "patch_rating sarah 1 (JNumber (9 / 2)) seed_db =
           (Sent 200 (JNumber (9 / 2)),
            seed_db\<lparr>submissions :=
                map (\<lambda>s. if s_id s = 1 then s\<lparr>s_rating := Some (SqlReal (9 / 2))\<rparr> else s) (submissions seed_db)\<rparr>)"
    and 4: "snd (patch_rating sarah 1 (JNumber (9 / 2)) (snd (patch_rating sarah 1 (JNumber 1) seed_db))) =
     snd (patch_rating sarah 1 (JNumber (9 / 2)) seed_db)"
    by simp_all
  have 5: "map s_rating (submissions (snd (patch_rating sarah 1 (JNumber (9 / 2)) seed_db))) =
     [Some (SqlReal (9 / 2)), Some (SqlReal 5), Some (SqlReal 2)]"
    unfolding 3 by (simp add: seed_db_def seed_submissions_def)
  from 3 have 6: "fst (patch_rating sarah 1 (JNumber (9 / 2)) seed_db) = Sent 200 (JNumber (9 / 2))"
    by simp
  from c s 1 2 6 5 4 show ?thesis by (intro conjI) simp_all
qed

text \<open>
  Ratings that are strings meet the same guard: the string \<^verbatim>\<open>3\<close> passes as the number it
  reads as and is stored as that number, a string that reads as no number compares false
  with both bounds, passes and is stored as text, and the empty string and a string that
  reads as a number out of range are rejected.
\<close>

lemma rating_of_strings:
  "fst (patch_rating sarah 1 (JString ''3'') seed_db) = Sent 200 (JString ''3'')"
  "map s_rating (submissions (snd (patch_rating sarah 1 (JString ''3'') seed_db))) =
     [Some (SqlReal 3), Some (SqlReal 5), Some (SqlReal 2)]"
  "fst (patch_rating sarah 1 (JString ''abc'') seed_db) = Sent 200 (JString ''abc'')"
  "map s_rating (submissions (snd (patch_rating sarah 1 (JString ''abc'') seed_db))) =
     [Some (SqlText ''abc''), Some (SqlReal 5), Some (SqlReal 2)]"
  "fst (patch_rating sarah 1 (JString []) seed_db) = Err 400 ''Rating must be between 1 and 5''"
  "fst (patch_rating sarah 1 (JString ''6'') seed_db) = Err 400 ''Rating must be between 1 and 5''"
  by code_simp+

subsection \<open>Responding to a partnership\<close>

lemma find_join_submissions_Some:
  "find P rows = Some r \<Longrightarrow> submission_by_id d (key r) = Some s \<Longrightarrow>
   find (\<lambda>(r, s). P r) (join_submissions d key rows) = Some (r, s)"
  by (induction rows) (auto simp: join_submissions_def map_filter_simps split: option.splits if_splits)

lemma find_join_submissions_None:
  "find P rows = None \<Longrightarrow> find (\<lambda>(r, s). P r) (join_submissions d key rows) = None"
  by (induction rows) (auto simp: join_submissions_def map_filter_simps split: option.splits if_splits)

lemma find_map_preserved:
  "(\<And>x. P (f x) = P x) \<Longrightarrow> find P (map f xs) = map_option f (find P xs)"
  by (induction xs) auto

lemma submission_by_id_partnerships_update [simp]:
  "submission_by_id (d\<lparr>partnerships := ps\<rparr>) = submission_by_id d"
  by (simp add: submission_by_id_def fun_eq_iff)

lemma user_by_id_partnerships_update [simp]:
  "user_by_id (d\<lparr>partnerships := ps\<rparr>) = user_by_id d"
  by (simp add: user_by_id_def fun_eq_iff)


lemma respond_found:
  assumes "a_role a = ''founder'' \<or> a_role a = ''admin''" "r = ''accepted'' \<or> r = ''declined''"
    and "find (\<lambda>p. p_id p = pid) (partnerships d) = Some p"
    and "submission_by_id d (p_submission_id p) = Some s"
  shows "respond_partnership a pid (Some r) now d =
     (if s_user_id s \<noteq> a_id a then (Err 403 ''Access denied'', d)
      else if p_status p \<noteq> ''pending'' then (Err 400 ''Partnership already responded to'', d)
      else (Sent 200 r, d\<lparr>partnerships := map (responded pid r now) (partnerships d)\<rparr>))"
proof -
  have "find (\<lambda>(p, s). p_id p = pid) (join_submissions d p_submission_id (partnerships d)) = Some (p, s)"
    using assms(3,4) by (rule find_join_submissions_Some)
  moreover have "requireRole ''founder'' a = (None :: string reply option)"
    using assms(1) by (rule requireRole_pass)
  ultimately show ?thesis using assms(2)
    by (auto simp: respond_partnership_def)
qed

lemma respond_absent:
  assumes "a_role a = ''founder'' \<or> a_role a = ''admin''" "r = ''accepted'' \<or> r = ''declined''"
    and "find (\<lambda>p. p_id p = pid) (partnerships d) = None"
  shows "respond_partnership a pid (Some r) now d = (Err 404 ''Partnership not found'', d)"
proof -
  have "find (\<lambda>(p, s). p_id p = pid) (join_submissions d p_submission_id (partnerships d)) = None"
    using assms(3) by (rule find_join_submissions_None)
  moreover have "requireRole ''founder'' a = (None :: string reply option)"
    using assms(1) by (rule requireRole_pass)
  ultimately show ?thesis using assms(2)
    by (auto simp: respond_partnership_def)
qed

text \<open>
  Claim C4, as stated, fails: the owner's second answer to a partnership that is already
  accepted is refused with status 400, not with 409.
\<close>

theorem respond_twice_is_400:
  "map_option p_status (find (\<lambda>p. p_id p = 1) (partnerships partnered_db)) = Some ''accepted'' \<and>
   fst (respond_partnership alex 1 (Some ''declined'') 70 partnered_db) =
     Err 400 ''Partnership already responded to'' \<and>
   fst (respond_partnership alex 1 (Some ''declined'') 70 partnered_db) \<noteq>
     Err 409 ''Partnership already responded to''"
  by (simp add: respond_partnership_def requireRole_def alex_def join_submissions_def
      map_filter_simps submission_by_id_def partnered_db_def demo_defs)

text \<open>
  Claim C4, amended. Let \<open>a\<close> pass the founder check (a founder, or an admin) and let the
  decision be \<^verbatim>\<open>accepted\<close> or \<^verbatim>\<open>declined\<close>. The answer is 404 when no partnership has the id, 403
  when the partnership's submission belongs to someone else, and 400 (not 409) when the
  partnership is no longer pending; each of these leaves the database as it was, status and
  response time included. Only when all three checks pass is the answer 200 and the row set
  to the decision with the response time recorded, every other row untouched. After that,
  whatever the same founder answers next is refused with 400 and changes nothing.
\<close>

theorem respond_checks:
  assumes role: "a_role a = ''founder'' \<or> a_role a = ''admin''"
    and decision: "r = ''accepted'' \<or> r = ''declined''"
  shows
   "(find (\<lambda>p. p_id p = pid) (partnerships d) = None \<longrightarrow>
       respond_partnership a pid (Some r) now d = (Err 404 ''Partnership not found'', d)) \<and>
    (find (\<lambda>p. p_id p = pid) (partnerships d) = Some p \<and>
     submission_by_id d (p_submission_id p) = Some s \<longrightarrow>
       (s_user_id s \<noteq> a_id a \<longrightarrow>
          respond_partnership a pid (Some r) now d = (Err 403 ''Access denied'', d)) \<and>
       (s_user_id s = a_id a \<and> p_status p \<noteq> ''pending'' \<longrightarrow>
          respond_partnership a pid (Some r) now d =
            (Err 400 ''Partnership already responded to'', d)) \<and>
       (s_user_id s = a_id a \<and> p_status p = ''pending'' \<longrightarrow>
          fst (respond_partnership a pid (Some r) now d) = Sent 200 r \<and>
          snd (respond_partnership a pid (Some r) now d) =
            d\<lparr>partnerships :=
                map (\<lambda>q. if p_id q = pid then q\<lparr>p_status := r, p_responded_at := Some now\<rparr> else q)
                  (partnerships d)\<rparr> \<and>
          ((r' = ''accepted'' \<or> r' = ''declined'') \<longrightarrow>
             respond_partnership a pid (Some r') now' (snd (respond_partnership a pid (Some r) now d)) =
               (Err 400 ''Partnership already responded to'',
                snd (respond_partnership a pid (Some r) now d)))))"
proof (intro conjI impI)
  assume "find (\<lambda>p. p_id p = pid) (partnerships d) = None"
  with role decision show "respond_partnership a pid (Some r) now d = (Err 404 ''Partnership not found'', d)"
    by (rule respond_absent)
next
  assume h: "find (\<lambda>p. p_id p = pid) (partnerships d) = Some p \<and>
     submission_by_id d (p_submission_id p) = Some s" and "s_user_id s \<noteq> a_id a"
  then show "respond_partnership a pid (Some r) now d = (Err 403 ''Access denied'', d)"
    using respond_found[OF role decision, where pid = pid and d = d and p = p and s = s and now = now] by simp
next
  assume h: "find (\<lambda>p. p_id p = pid) (partnerships d) = Some p \<and>
     submission_by_id d (p_submission_id p) = Some s" and "s_user_id s = a_id a \<and> p_status p \<noteq> ''pending''"
  then show "respond_partnership a pid (Some r) now d = (Err 400 ''Partnership already responded to'', d)"
    using respond_found[OF role decision, where pid = pid and d = d and p = p and s = s and now = now] by simp
next
  assume h: "find (\<lambda>p. p_id p = pid) (partnerships d) = Some p \<and>
     submission_by_id d (p_submission_id p) = Some s" and o: "s_user_id s = a_id a \<and> p_status p = ''pending''"
  then have ok: "respond_partnership a pid (Some r) now d =
      (Sent 200 r, d\<lparr>partnerships := map (responded pid r now) (partnerships d)\<rparr>)"
    using respond_found[OF role decision, where pid = pid and d = d and p = p and s = s and now = now] by simp
  show "fst (respond_partnership a pid (Some r) now d) = Sent 200 r"
    by (simp add: ok)
  have eq: "(\<lambda>q. if p_id q = pid then q\<lparr>p_status := r, p_responded_at := Some now\<rparr> else q) = responded pid r now"
    by (simp add: responded_def fun_eq_iff)
  show "snd (respond_partnership a pid (Some r) now d) =
            d\<lparr>partnerships :=
                map (\<lambda>q. if p_id q = pid then q\<lparr>p_status := r, p_responded_at := Some now\<rparr> else q)
                  (partnerships d)\<rparr>"
    by (simp add: ok eq)
  assume decision': "r' = ''accepted'' \<or> r' = ''declined''"
  let ?d = "d\<lparr>partnerships := map (responded pid r now) (partnerships d)\<rparr>"
  have f: "find (\<lambda>p. p_id p = pid) (partnerships ?d) = Some (responded pid r now p)"
    using h by (simp add: find_map_preserved responded_def)
  have pid: "p_id p = pid"
    using h by (auto dest: find_Some_iff[THEN iffD1])
  have s': "submission_by_id ?d (p_submission_id (responded pid r now p)) = Some s"
    using h by (simp add: responded_def)
  have st: "p_status (responded pid r now p) \<noteq> ''pending''"
    using decision pid by (auto simp: responded_def)
  have "respond_partnership a pid (Some r') now' ?d = (Err 400 ''Partnership already responded to'', ?d)"
    using respond_found[OF role decision' f s', of now'] o st by simp
  then show "respond_partnership a pid (Some r') now' (snd (respond_partnership a pid (Some r) now d)) =
               (Err 400 ''Partnership already responded to'',
                snd (respond_partnership a pid (Some r) now d))"
    by (simp add: ok)
qed

lemmas partnered_defs = partnered_db_def demo_defs

theorem respond_checks_witness:
  "a_role alex = ''founder'' \<and>
   respond_partnership alex 9 (Some ''accepted'') 70 partnered_db =
     (Err 404 ''Partnership not found'', partnered_db) \<and>
   respond_partnership alex 4 (Some ''accepted'') 70 partnered_db =
     (Err 403 ''Access denied'', partnered_db) \<and>
   respond_partnership alex 1 (Some ''accepted'') 70 partnered_db =
     (Err 400 ''Partnership already responded to'', partnered_db) \<and>
   fst (respond_partnership alex 2 (Some ''accepted'') 70 partnered_db) = Sent 200 ''accepted'' \<and>
   map (\<lambda>p. (p_id p, p_status p, p_responded_at p))
     (partnerships (snd (respond_partnership alex 2 (Some ''accepted'') 70 partnered_db))) =
     [(1, ''accepted'', Some 64), (2, ''accepted'', Some 70), (3, ''pending'', None),
      (4, ''declined'', Some 65)] \<and>
   fst (respond_partnership alex 2 (Some ''declined'') 71
          (snd (respond_partnership alex 2 (Some ''accepted'') 70 partnered_db))) =
     Err 400 ''Partnership already responded to''"
proof -
  have role: "a_role alex = ''founder'' \<or> a_role alex = ''admin''" by (simp add: alex_def)
  have dec: "''accepted'' = ''accepted'' \<or> ''accepted'' = ''declined''" by simp
  let ?ps = "partnerships partnered_db"
  have f9: "find (\<lambda>p. p_id p = 9) ?ps = None" by (simp add: partnered_defs)
  have f4: "find (\<lambda>p. p_id p = 4) ?ps = Some (?ps ! 3) \<and>
            submission_by_id partnered_db (p_submission_id (?ps ! 3)) = Some (submissions partnered_db ! 3)"
    by (simp add: partnered_defs submission_by_id_def)
  have o4: "s_user_id (submissions partnered_db ! 3) \<noteq> a_id alex"
    by (simp add: partnered_defs alex_def)
  have f1: "find (\<lambda>p. p_id p = 1) ?ps = Some (?ps ! 0) \<and>
            submission_by_id partnered_db (p_submission_id (?ps ! 0)) = Some (submissions partnered_db ! 0)"
    by (simp add: partnered_defs submission_by_id_def)
  have o1: "s_user_id (submissions partnered_db ! 0) = a_id alex \<and> p_status (?ps ! 0) \<noteq> ''pending''"
    by (simp add: partnered_defs alex_def)
  have f2: "find (\<lambda>p. p_id p = 2) ?ps = Some (?ps ! 1) \<and>
            submission_by_id partnered_db (p_submission_id (?ps ! 1)) = Some (submissions partnered_db ! 0)"
    by (simp add: partnered_defs submission_by_id_def)
  have o2: "s_user_id (submissions partnered_db ! 0) = a_id alex \<and> p_status (?ps ! 1) = ''pending''"
    by (simp add: partnered_defs alex_def)
  have d71: "''declined'' = ''accepted'' \<or> ''declined'' = ''declined''" by simp
  from respond_checks [OF role dec, where pid = 9 and d = partnered_db and now = 70] f9
  have 1: "respond_partnership alex 9 (Some ''accepted'') 70 partnered_db =
     (Err 404 ''Partnership not found'', partnered_db)" by blast
  from respond_checks [OF role dec, where pid = 4 and d = partnered_db and now = 70 and p = "?ps ! 3"
      and s = "submissions partnered_db ! 3"] f4 o4
  have 2: "respond_partnership alex 4 (Some ''accepted'') 70 partnered_db =
     (Err 403 ''Access denied'', partnered_db)" by blast
  from respond_checks [OF role dec, where pid = 1 and d = partnered_db and now = 70 and p = "?ps ! 0"
      and s = "submissions partnered_db ! 0"] f1 o1
  have 3: "respond_partnership alex 1 (Some ''accepted'') 70 partnered_db =
     (Err 400 ''Partnership already responded to'', partnered_db)" by blast
  note t = respond_checks [OF role dec, where pid = 2 and d = partnered_db and now = 70 and p = "?ps ! 1"
      and s = "submissions partnered_db ! 0" and r' = "''declined''" and now' = 71]
  from t f2 o2 have 4: "fst (respond_partnership alex 2 (Some ''accepted'') 70 partnered_db) = Sent 200 ''accepted''"
    by blast
  from t f2 o2 have 5: "snd (respond_partnership alex 2 (Some ''accepted'') 70 partnered_db) =
      partnered_db\<lparr>partnerships :=
         map (\<lambda>q. if p_id q = 2 then q\<lparr>p_status := ''accepted'', p_responded_at := Some 70\<rparr> else q) ?ps\<rparr>"
    by blast
  have 6: "map (\<lambda>p. (p_id p, p_status p, p_responded_at p))
     (partnerships (snd (respond_partnership alex 2 (Some ''accepted'') 70 partnered_db))) =
     [(1, ''accepted'', Some 64), (2, ''accepted'', Some 70), (3, ''pending'', None),
      (4, ''declined'', Some 65)]"
    unfolding 5 by (simp add: partnered_defs)
  from t f2 o2 d71 have "respond_partnership alex 2 (Some ''declined'') 71
          (snd (respond_partnership alex 2 (Some ''accepted'') 70 partnered_db)) =
     (Err 400 ''Partnership already responded to'',
      snd (respond_partnership alex 2 (Some ''accepted'') 70 partnered_db))"
    by blast
  then have 7: "fst (respond_partnership alex 2 (Some ''declined'') 71
          (snd (respond_partnership alex 2 (Some ''accepted'') 70 partnered_db))) =
     Err 400 ''Partnership already responded to''"
    by simp
  have 0: "a_role alex = ''founder''" by (simp add: alex_def)
  from 0 1 2 3 4 6 7 show ?thesis by (intro conjI)
qed

subsection \<open>What one partnership request does to the table\<close>

lemma join_submissions_mem:
  "(r, s) \<in> set (join_submissions d key rows) \<Longrightarrow> r \<in> set rows \<and> submission_by_id d (key r) = Some s"
  by (induction rows) (auto simp: join_submissions_def map_filter_simps split: option.splits if_splits)

lemma find_mem: "find P xs = Some x \<Longrightarrow> x \<in> set xs \<and> P x"
  by (induction xs) (auto split: if_splits)

lemma find_None_set: "find P xs = None \<Longrightarrow> x \<in> set xs \<Longrightarrow> \<not> P x"
  by (induction xs) (auto split: if_splits)


lemma claim_snd_cases:
  "snd (claim_partner a subId now d) = d \<or>
   (partnership_of d subId (a_id a) = None \<and> active_count d subId < 3 \<and>
    submission_by_id d subId \<noteq> None \<and>
    snd (claim_partner a subId now d) =
      d\<lparr>partnerships := partnerships d @ [new_row (Suc (last_partnership_id d)) subId (a_id a) now],
        last_partnership_id := Suc (last_partnership_id d)\<rparr>)"
  by (auto simp: claim_partner_def insert_partnership_def Let_def
      split: option.splits if_splits prod.splits)

lemma withdraw_snd_cases:
  "snd (withdraw_partner a subId d) = d \<or>
   snd (withdraw_partner a subId d) =
     d\<lparr>partnerships := filter (\<lambda>p. \<not> (p_submission_id p = subId \<and> p_user_id p = a_id a \<and>
                                      p_status p = ''pending'')) (partnerships d)\<rparr>"
  by (auto simp: withdraw_partner_def Let_def split: option.splits)

lemma respond_snd_cases:
  "snd (respond_partnership a pid response now d) = d \<or>
   (\<exists>r p. (r = ''accepted'' \<or> r = ''declined'') \<and> p \<in> set (partnerships d) \<and> p_id p = pid \<and>
      p_status p = ''pending'' \<and>
      snd (respond_partnership a pid response now d) =
        d\<lparr>partnerships := map (responded pid r now) (partnerships d)\<rparr>)"
proof (cases "snd (respond_partnership a pid response now d) = d")
  case True
  then show ?thesis by simp
next
  case False
  then obtain r p s where r: "response = Some r" "r = ''accepted'' \<or> r = ''declined''"
    and f: "find (\<lambda>(p, s). p_id p = pid) (join_submissions d p_submission_id (partnerships d)) = Some (p, s)"
    and st: "p_status p = ''pending''"
    and res: "snd (respond_partnership a pid response now d) =
        d\<lparr>partnerships := map (responded pid r now) (partnerships d)\<rparr>"
    by (auto simp: respond_partnership_def split: option.splits if_splits prod.splits)
  from f have "(p, s) \<in> set (join_submissions d p_submission_id (partnerships d))" "p_id p = pid"
    by (auto dest: find_mem)
  then have "p \<in> set (partnerships d)" by (auto dest: join_submissions_mem)
  with r st res \<open>p_id p = pid\<close> show ?thesis by blast
qed

lemma step_cases:
  obtains (same) "step op d = d"
  | (claimed) a :: actor and subId now where
      "partnership_of d subId (a_id a) = None" "active_count d subId < 3"
      "submission_by_id d subId \<noteq> None"
      "step op d =
        d\<lparr>partnerships := partnerships d @ [new_row (Suc (last_partnership_id d)) subId (a_id a) now],
          last_partnership_id := Suc (last_partnership_id d)\<rparr>"
  | (withdrawn) a :: actor and subId where
      "step op d =
        d\<lparr>partnerships := filter (\<lambda>p. \<not> (p_submission_id p = subId \<and> p_user_id p = a_id a \<and>
                                      p_status p = ''pending'')) (partnerships d)\<rparr>"
  | (answered) pid r now p where
      "r = ''accepted'' \<or> r = ''declined''" "p \<in> set (partnerships d)" "p_id p = pid"
      "p_status p = ''pending''"
      "step op d = d\<lparr>partnerships := map (responded pid r now) (partnerships d)\<rparr>"
proof (cases op)
  case (Claim a subId now)
  from claim_snd_cases[of a subId now d] show ?thesis
  proof (elim disjE conjE)
    assume "snd (claim_partner a subId now d) = d"
    then show ?thesis using Claim by (intro same) simp
  next
    assume "partnership_of d subId (a_id a) = None" "active_count d subId < 3"
      "submission_by_id d subId \<noteq> None"
      "snd (claim_partner a subId now d) =
        d\<lparr>partnerships := partnerships d @ [new_row (Suc (last_partnership_id d)) subId (a_id a) now],
          last_partnership_id := Suc (last_partnership_id d)\<rparr>"
    then show ?thesis using Claim by (intro claimed[where a = a and subId = subId and now = now]) simp_all
  qed
next
  case (Withdraw a subId)
  from withdraw_snd_cases[of a subId d] show ?thesis
  proof (elim disjE)
    assume "snd (withdraw_partner a subId d) = d"
    then show ?thesis using Withdraw by (intro same) simp
  next
    assume "snd (withdraw_partner a subId d) =
     d\<lparr>partnerships := filter (\<lambda>p. \<not> (p_submission_id p = subId \<and> p_user_id p = a_id a \<and>
                                      p_status p = ''pending'')) (partnerships d)\<rparr>"
    then show ?thesis using Withdraw by (intro withdrawn[where a = a and subId = subId]) simp
  qed
next
  case (Respond a pid response now)
  from respond_snd_cases[of a pid response now d]
  consider "snd (respond_partnership a pid response now d) = d"
    | r p where "r = ''accepted'' \<or> r = ''declined''" "p \<in> set (partnerships d)" "p_id p = pid"
      "p_status p = ''pending''"
      "snd (respond_partnership a pid response now d) =
        d\<lparr>partnerships := map (responded pid r now) (partnerships d)\<rparr>"
    by blast
  then show ?thesis
  proof cases
    case 1
    then show ?thesis using Respond by (intro same) simp
  next
    case (2 r p)
    then show ?thesis using Respond
      by (intro answered[where pid = pid and r = r and now = now and p = p]) simp_all
  qed
qed

lemma step_tables [simp]:
  "submissions (step op d) = submissions d" "users (step op d) = users d"
  by (cases op d rule: step_cases; simp)+

lemma run_tables [simp]:
  "submissions (run ops d) = submissions d" "users (run ops d) = users d"
  unfolding run_def by (induction ops arbitrary: d) auto

lemma submission_by_id_run [simp]: "submission_by_id (run ops d) i = submission_by_id d i"
  by (simp add: submission_by_id_def)

lemma user_by_id_run [simp]: "user_by_id (run ops d) i = user_by_id d i"
  by (simp add: user_by_id_def)

lemma p_id_responded [simp]: "p_id (responded pid r now p) = p_id p"
  and p_submission_id_responded [simp]: "p_submission_id (responded pid r now p) = p_submission_id p"
  and p_user_id_responded [simp]: "p_user_id (responded pid r now p) = p_user_id p"
  by (simp_all add: responded_def)

lemma partnership_of_None_pairs:
  "partnership_of d subId uid = None \<Longrightarrow>
   (subId, uid) \<notin> set (map (\<lambda>p. (p_submission_id p, p_user_id p)) (partnerships d))"
  by (auto simp: partnership_of_def dest: find_None_set)

lemma step_primary_key: "primary_key d \<Longrightarrow> primary_key (step op d)"
  by (cases op d rule: step_cases)
     (auto simp: primary_key_def list_all_iff new_row_def distinct_map_filter comp_def)

lemma step_unique_pair: "unique_pair d \<Longrightarrow> unique_pair (step op d)"
  by (cases op d rule: step_cases)
     (auto simp: unique_pair_def new_row_def distinct_map_filter comp_def
        dest: partnership_of_None_pairs)

lemma length_filter_filter_le: "length (filter P (filter Q xs)) \<le> length (filter P xs)"
  by (induction xs) auto

lemma length_filter_map_le:
  "(\<And>x. x \<in> set xs \<Longrightarrow> P (f x) \<Longrightarrow> P x) \<Longrightarrow> length (filter P (map f xs)) \<le> length (filter P xs)"
  by (induction xs) auto

lemma same_id_same_row:
  "primary_key d \<Longrightarrow> p \<in> set (partnerships d) \<Longrightarrow> q \<in> set (partnerships d) \<Longrightarrow>
   p_id q = p_id p \<Longrightarrow> q = p"
  by (auto simp: primary_key_def distinct_map dest: inj_onD)

lemma active_count_step:
  assumes "primary_key d"
  shows "active_count (step op d) s \<le> active_count d s \<or>
         (active_count d s < 3 \<and> active_count (step op d) s = Suc (active_count d s))"
proof (cases op d rule: step_cases)
  case same
  then show ?thesis by simp
next
  case (claimed a subId now)
  then show ?thesis by (auto simp: active_count_def new_row_def)
next
  case (withdrawn a subId)
  then have "active_count (step op d) s \<le> active_count d s"
    by (simp add: active_count_def length_filter_filter_le del: filter_filter)
  then show ?thesis by simp
next
  case (answered pid r now p)
  have "length (filter (\<lambda>p. p_submission_id p = s \<and> p_status p \<in> {''pending'', ''accepted''})
          (map (responded pid r now) (partnerships d)))
        \<le> length (filter (\<lambda>p. p_submission_id p = s \<and> p_status p \<in> {''pending'', ''accepted''})
          (partnerships d))"
  proof (rule length_filter_map_le)
    fix q
    assume q: "q \<in> set (partnerships d)"
      and a: "p_submission_id (responded pid r now q) = s \<and>
              p_status (responded pid r now q) \<in> {''pending'', ''accepted''}"
    show "p_submission_id q = s \<and> p_status q \<in> {''pending'', ''accepted''}"
    proof (cases "p_id q = pid")
      case True
      with answered q assms have "q = p" by (intro same_id_same_row) auto
      with answered a show ?thesis by simp
    next
      case False
      with a show ?thesis by (simp add: responded_def)
    qed
  qed
  with answered show ?thesis by (simp add: active_count_def)
qed

lemma step_within_cap: "primary_key d \<Longrightarrow> within_cap d \<Longrightarrow> within_cap (step op d)"
  unfolding within_cap_def
proof
  fix s
  assume pk: "primary_key d" and cap: "\<forall>subId. active_count d subId \<le> 3"
  from active_count_step[OF pk, of op s] cap[rule_format, of s]
  show "active_count (step op d) s \<le> 3" by auto
qed

lemma run_Nil [simp]: "run [] d = d"
  and run_Cons [simp]: "run (op # ops) d = run ops (step op d)"
  by (simp_all add: run_def)

lemma run_primary_key: "primary_key d \<Longrightarrow> primary_key (run ops d)"
  by (induction ops arbitrary: d) (auto intro: step_primary_key)

lemma run_unique_pair: "unique_pair d \<Longrightarrow> unique_pair (run ops d)"
  by (induction ops arbitrary: d) (auto intro: step_unique_pair)

lemma run_within_cap: "primary_key d \<Longrightarrow> within_cap d \<Longrightarrow> within_cap (run ops d)"
  by (induction ops arbitrary: d) (auto intro: step_primary_key step_within_cap)

lemma claim_is_error_when_full:
  assumes "3 \<le> active_count d subId"
  shows "(\<exists>c m. fst (claim_partner a subId now d) = Err c m) \<and> snd (claim_partner a subId now d) = d"
  using assms
  by (auto simp: claim_partner_def requireRole_def split: option.splits)

lemma claim_400_when_full:
  assumes "3 \<le> active_count d subId" "a_role a = ''board'' \<or> a_role a = ''admin''"
    "submission_by_id d subId \<noteq> None" "partnership_of d subId (a_id a) = None"
  shows "claim_partner a subId now d = (Err 400 ''Maximum 3 partners reached for this submission'', d)"
proof -
  have "requireRole ''board'' a = (None :: partnership_view option reply option)"
    using assms(2) by (rule requireRole_pass)
  with assms show ?thesis by (auto simp: claim_partner_def)
qed

subsection \<open>The cap of three partners\<close>

text \<open>
  Claim C2. When a submission already has three or more partnership rows that are pending
  or accepted, every claim on it fails and leaves the database as it was; the claim of a
  board member (or admin) that reaches the cap check, the submission existing and the
  member holding no row on it yet, is answered 400 with the cap's message. Hence, from a
  table whose ids are distinct and whose submissions are all within the cap (the empty table
  is one), no sequence of claim, withdraw and respond requests run one after the other
  brings any submission above three.
\<close>

theorem partner_cap:
  "(3 \<le> active_count d subId \<longrightarrow>
      (\<exists>c m. fst (claim_partner a subId now d) = Err c m) \<and>
      snd (claim_partner a subId now d) = d) \<and>
   (3 \<le> active_count d subId \<and> (a_role a = ''board'' \<or> a_role a = ''admin'') \<and>
    submission_by_id d subId \<noteq> None \<and> partnership_of d subId (a_id a) = None \<longrightarrow>
      claim_partner a subId now d =
        (Err 400 ''Maximum 3 partners reached for this submission'', d)) \<and>
   (primary_key d \<and> within_cap d \<longrightarrow>
      within_cap (run ops d) \<and> active_count (run ops d) subId \<le> 3) \<and>
   (partnerships d = [] \<longrightarrow> active_count (run ops d) subId \<le> 3)"
proof (intro conjI impI)
  assume "3 \<le> active_count d subId"
  then show "\<exists>c m. fst (claim_partner a subId now d) = Err c m"
    and "snd (claim_partner a subId now d) = d"
    using claim_is_error_when_full[of d subId a now] by simp_all
next
  assume "3 \<le> active_count d subId \<and> (a_role a = ''board'' \<or> a_role a = ''admin'') \<and>
    submission_by_id d subId \<noteq> None \<and> partnership_of d subId (a_id a) = None"
  then show "claim_partner a subId now d =
        (Err 400 ''Maximum 3 partners reached for this submission'', d)"
    by (intro claim_400_when_full) simp_all
next
  assume h: "primary_key d \<and> within_cap d"
  then show c: "within_cap (run ops d)" by (simp add: run_within_cap)
  then show "active_count (run ops d) subId \<le> 3" by (simp add: within_cap_def)
next
  assume "partnerships d = []"
  then have "primary_key d" "within_cap d"
    by (simp_all add: primary_key_def within_cap_def active_count_def)
  then have "within_cap (run ops d)" by (rule run_within_cap)
  then show "active_count (run ops d) subId \<le> 3" by (simp add: within_cap_def)
qed

lemma four_claims_demo:
  "map (\<lambda>p. (p_id p, p_submission_id p, p_user_id p, p_status p))
     (partnerships (run [Claim sarah 4 70, Claim aisha 4 71, Claim david 4 72, Claim james 4 73] demo_db)) =
   [(1, 4, 2, ''pending''), (2, 4, 5, ''pending''), (3, 4, 6, ''pending'')]"
  by (simp add: claim_partner_def requireRole_def insert_partnership_def partnership_of_def
      active_count_def submission_by_id_def user_by_id_def join_users_def map_filter_simps new_row_def
      run_result_def sarah_def aisha_def david_def james_def demo_defs)

theorem partner_cap_witness:
  "active_count partnered_db 1 = 3 \<and> a_role james = ''board'' \<and>
   partnership_of partnered_db 1 (a_id james) = None \<and>
   claim_partner james 1 70 partnered_db =
     (Err 400 ''Maximum 3 partners reached for this submission'', partnered_db) \<and>
   primary_key partnered_db \<and> within_cap partnered_db \<and>
   active_count
     (run [Claim james 1 70, Withdraw aisha 1, Claim james 1 71, Claim aisha 1 72,
           Respond alex 3 (Some ''declined'') 73, Claim aisha 1 74, Claim david 1 75] partnered_db) 1 \<le> 3 \<and>
   active_count
     (run [Claim sarah 4 70, Claim aisha 4 71, Claim david 4 72, Claim james 4 73] demo_db) 4 \<le> 3 \<and>
   map (\<lambda>p. (p_id p, p_submission_id p, p_user_id p, p_status p))
     (partnerships (run [Claim sarah 4 70, Claim aisha 4 71, Claim david 4 72, Claim james 4 73] demo_db)) =
   [(1, 4, 2, ''pending''), (2, 4, 5, ''pending''), (3, 4, 6, ''pending'')]"
proof -
  have c: "active_count partnered_db 1 = 3"
    by (simp add: active_count_def partnered_defs)
  have r: "a_role james = ''board''" by (simp add: james_def)
  have s: "submission_by_id partnered_db 1 \<noteq> None"
    by (simp add: submission_by_id_def partnered_defs)
  have n: "partnership_of partnered_db 1 (a_id james) = None"
    by (simp add: partnership_of_def partnered_defs james_def)
  have pk: "primary_key partnered_db"
    by (simp add: primary_key_def partnered_defs)
  have wc: "within_cap partnered_db"
    by (auto simp: within_cap_def active_count_def partnered_defs)
  have e: "partnerships demo_db = []" by (simp add: demo_defs)
  note t = partner_cap [where d = partnered_db and subId = 1 and a = james and now = 70 and
      ops = "[Claim james 1 70, Withdraw aisha 1, Claim james 1 71, Claim aisha 1 72,
           Respond alex 3 (Some ''declined'') 73, Claim aisha 1 74, Claim david 1 75]"]
  note u = partner_cap [where d = demo_db and subId = 4 and a = james and now = 70 and
      ops = "[Claim sarah 4 70, Claim aisha 4 71, Claim david 4 72, Claim james 4 73]"]
  from t c r s n have 1: "claim_partner james 1 70 partnered_db =
     (Err 400 ''Maximum 3 partners reached for this submission'', partnered_db)"
    by simp
  from t pk wc have 2: "active_count
     (run [Claim james 1 70, Withdraw aisha 1, Claim james 1 71, Claim aisha 1 72,
           Respond alex 3 (Some ''declined'') 73, Claim aisha 1 74, Claim david 1 75] partnered_db) 1 \<le> 3"
    by blast
  from u e have 3: "active_count
     (run [Claim sarah 4 70, Claim aisha 4 71, Claim david 4 72, Claim james 4 73] demo_db) 4 \<le> 3"
    by blast
  from c r n 1 pk wc 2 3 four_claims_demo show ?thesis by (intro conjI)
qed

lemma distinct_key_count: "distinct (map f xs) \<Longrightarrow> length (filter (\<lambda>x. f x = k) xs) \<le> 1"
proof (induction xs)
  case Nil
  then show ?case by simp
next
  case (Cons x xs)
  show ?case
  proof (cases "f x = k")
    case True
    from Cons.prems have "f x \<notin> f ` set xs" by simp
    with True have "\<forall>y\<in>set xs. f y \<noteq> k" by blast
    then have "filter (\<lambda>x. f x = k) xs = []"
      by (simp add: filter_empty_conv)
    with True show ?thesis by simp
  next
    case False
    with Cons show ?thesis by simp
  qed
qed

lemma same_pair_same_row:
  "unique_pair d \<Longrightarrow> p \<in> set (partnerships d) \<Longrightarrow> q \<in> set (partnerships d) \<Longrightarrow>
   p_submission_id q = p_submission_id p \<Longrightarrow> p_user_id q = p_user_id p \<Longrightarrow> q = p"
  by (auto simp: unique_pair_def distinct_map dest: inj_onD)

lemma partnership_of_Some:
  "partnership_of d subId uid = Some p \<Longrightarrow>
   p \<in> set (partnerships d) \<and> p_submission_id p = subId \<and> p_user_id p = uid"
  by (auto simp: partnership_of_def dest: find_mem)

lemma partnership_of_exists:
  "p \<in> set (partnerships d) \<Longrightarrow> p_submission_id p = subId \<Longrightarrow> p_user_id p = uid \<Longrightarrow>
   partnership_of d subId uid \<noteq> None"
  by (auto simp: partnership_of_def find_None_iff)

lemma claim_409:
  assumes "a_role a = ''board'' \<or> a_role a = ''admin''" "submission_by_id d subId \<noteq> None"
    "partnership_of d subId (a_id a) \<noteq> None"
  shows "claim_partner a subId now d = (Err 409 ''You have already requested to partner'', d)"
proof -
  have "requireRole ''board'' a = (None :: partnership_view option reply option)"
    using assms(1) by (rule requireRole_pass)
  with assms show ?thesis by (auto simp: claim_partner_def)
qed

lemma lastInsertRowid_run_result [simp]: "lastInsertRowid run_result = 0"
  and changes_run_result [simp]: "changes run_result = 0"
  by (simp_all add: run_result_def)

lemma withdraw_reply:
  assumes "a_role a = ''board'' \<or> a_role a = ''admin''"
  shows "fst (withdraw_partner a subId d) = Err 400 ''No pending partnership to withdraw''"
proof -
  have "requireRole ''board'' a = (None :: unit reply option)"
    using assms by (rule requireRole_pass)
  then show ?thesis by (simp add: withdraw_partner_def Let_def)
qed

lemma withdraw_pending:
  assumes role: "a_role a = ''board'' \<or> a_role a = ''admin''" and up: "unique_pair d"
    and p: "partnership_of d subId (a_id a) = Some p" and st: "p_status p = ''pending''"
  shows "partnership_of (snd (withdraw_partner a subId d)) subId (a_id a) = None"
    and "active_count (snd (withdraw_partner a subId d)) subId < active_count d subId"
proof -
  let ?gone = "\<lambda>q. p_submission_id q = subId \<and> p_user_id q = a_id a \<and> p_status q = ''pending''"
  let ?kept = "filter (\<lambda>q. \<not> ?gone q) (partnerships d)"
  let ?active = "\<lambda>q. p_submission_id q = subId \<and> p_status q \<in> {''pending'', ''accepted''}"
  from p have pin: "p \<in> set (partnerships d)" "p_submission_id p = subId" "p_user_id p = a_id a"
    by (auto dest: partnership_of_Some)
  have gone: "?gone p" using pin st by simp
  have rr: "requireRole ''board'' a = (None :: unit reply option)"
    using role by (rule requireRole_pass)
  have s: "snd (withdraw_partner a subId d) = d\<lparr>partnerships := ?kept\<rparr>"
    using rr by (simp add: withdraw_partner_def Let_def)
  have "find (\<lambda>q. p_submission_id q = subId \<and> p_user_id q = a_id a) ?kept = None"
  proof (rule ccontr)
    assume "find (\<lambda>q. p_submission_id q = subId \<and> p_user_id q = a_id a) ?kept \<noteq> None"
    then obtain q where "find (\<lambda>q. p_submission_id q = subId \<and> p_user_id q = a_id a) ?kept = Some q"
      by auto
    then have "q \<in> set ?kept" and pq: "p_submission_id q = subId" "p_user_id q = a_id a"
      by (auto dest: find_mem)
    then have qs: "q \<in> set (partnerships d)" and ng: "p_status q \<noteq> ''pending''"
      by simp_all
    have "q = p"
      using up pin(1) qs by (rule same_pair_same_row) (simp_all add: pq pin)
    with ng st show False by simp
  qed
  then show "partnership_of (snd (withdraw_partner a subId d)) subId (a_id a) = None"
    unfolding s by (simp add: partnership_of_def)
  have fk: "filter ?active ?kept = filter (\<lambda>q. \<not> ?gone q) (filter ?active (partnerships d))"
    by (simp add: conj_commute)
  have pa: "p \<in> set (filter ?active (partnerships d))" using pin st by simp
  have "length (filter (\<lambda>q. \<not> ?gone q) (filter ?active (partnerships d)))
        < length (filter ?active (partnerships d))"
    using length_filter_less[of p "filter ?active (partnerships d)" "\<lambda>q. \<not> ?gone q"] pa gone
    by simp
  then have "length (filter ?active ?kept) < length (filter ?active (partnerships d))"
    by (simp only: fk)
  then show "active_count (snd (withdraw_partner a subId d)) subId < active_count d subId"
    unfolding s by (simp add: active_count_def)
qed

lemma find_append_None: "find P xs = None \<Longrightarrow> find P (xs @ ys) = find P ys"
  by (induction xs) (auto split: if_splits)

lemma claim_inserts:
  assumes role: "a_role a = ''board'' \<or> a_role a = ''admin''"
    and sub: "submission_by_id d subId \<noteq> None"
    and none: "partnership_of d subId (a_id a) = None" and room: "active_count d subId < 3"
  shows "snd (claim_partner a subId now d) =
      d\<lparr>partnerships := partnerships d @ [new_row (Suc (last_partnership_id d)) subId (a_id a) now],
        last_partnership_id := Suc (last_partnership_id d)\<rparr>"
proof -
  have rr: "requireRole ''board'' a = (None :: partnership_view option reply option)"
    using role by (rule requireRole_pass)
  from sub obtain s where s: "submission_by_id d subId = Some s" by auto
  show ?thesis
    using rr s none room
    by (simp add: claim_partner_def insert_partnership_def Let_def split: option.splits prod.splits)
qed

text \<open>
  The answer to a claim that has inserted its row: the query by \<^verbatim>\<open>lastInsertRowid\<close> asks for
  the partnership with id 0, which no table filled by the routes holds, and with the founder's
  row present the handler throws after the insert.
\<close>

lemma claim_reply_after_insert:
  assumes role: "a_role a = ''board'' \<or> a_role a = ''admin''"
    and sub: "submission_by_id d subId = Some s"
    and none: "partnership_of d subId (a_id a) = None" and room: "active_count d subId < 3"
    and founder: "user_by_id d (s_user_id s) \<noteq> None"
    and zero: "find (\<lambda>p. p_id p = 0) (partnerships d) = None"
  shows "fst (claim_partner a subId now d) = Uncaught"
proof -
  let ?new = "new_row (Suc (last_partnership_id d)) subId (a_id a) now"
  let ?d = "d\<lparr>partnerships := partnerships d @ [?new],
              last_partnership_id := Suc (last_partnership_id d)\<rparr>"
  have rr: "requireRole ''board'' a = (None :: partnership_view option reply option)"
    using role by (rule requireRole_pass)
  have ins: "insert_partnership subId (a_id a) now d = Some ?d"
    using none by (simp add: insert_partnership_def)
  have "find (\<lambda>p. p_id p = 0) (partnerships ?d) = None"
    using zero by (simp add: find_append_None new_row_def)
  then have f: "find (\<lambda>(p, u). p_id p = 0) (join_users ?d p_user_id (partnerships ?d)) = None"
    by (rule find_join_users_None)
  have u: "user_by_id ?d (s_user_id s) \<noteq> None"
    using founder by (simp add: user_by_id_def)
  show ?thesis
    using rr sub none room ins f u by (simp add: claim_partner_def)
qed

lemma declined_stays_step:
  assumes "primary_key d" "p \<in> set (partnerships d)" "p_status p = ''declined''"
  shows "p \<in> set (partnerships (step op d))"
proof (cases op d rule: step_cases)
  case same
  with assms show ?thesis by simp
next
  case (claimed a subId now)
  with assms show ?thesis by simp
next
  case (withdrawn a subId)
  with assms show ?thesis by simp
next
  case (answered pid r now q)
  have "p_id p \<noteq> pid"
  proof
    assume "p_id p = pid"
    with answered assms have "p = q" by (intro same_id_same_row) auto
    with answered assms show False by simp
  qed
  then have "responded pid r now p = p" by (simp add: responded_def)
  with assms have "p \<in> responded pid r now ` set (partnerships d)" by force
  with answered show ?thesis by simp
qed

lemma declined_stays_run:
  "primary_key d \<Longrightarrow> p \<in> set (partnerships d) \<Longrightarrow> p_status p = ''declined'' \<Longrightarrow>
   p \<in> set (partnerships (run ops d))"
  by (induction ops arbitrary: d) (auto intro: step_primary_key declined_stays_step)

subsection \<open>One partnership per submission and member\<close>

text \<open>
  The rows behave as follows. From a table that respects its primary key and
  \<^verbatim>\<open>UNIQUE(submission_id, user_id)\<close>, every run of claim, withdraw and respond requests leaves at
  most one row per submission and member. For a board member (or admin) \<open>a\<close> and an existing
  submission: a claim is answered 409 and changes nothing whenever \<open>a\<close> already has a row on
  the submission, whatever its status. Withdrawing a pending row removes it, and a new claim
  by \<open>a\<close> below the cap then inserts a fresh pending row. A declined row survives every later
  request, so every later claim by \<open>a\<close> on that submission is answered 409.
\<close>

lemma one_row_per_pair:
  assumes pk: "primary_key d" and up: "unique_pair d"
    and role: "a_role a = ''board'' \<or> a_role a = ''admin''"
    and sub: "submission_by_id d subId \<noteq> None"
  shows
   "unique_pair (run ops d) \<and>
    length (filter (\<lambda>q. p_submission_id q = s \<and> p_user_id q = u) (partnerships (run ops d))) \<le> 1 \<and>
    (partnership_of d subId (a_id a) \<noteq> None \<longrightarrow>
       claim_partner a subId now d = (Err 409 ''You have already requested to partner'', d)) \<and>
    (partnership_of d subId (a_id a) = Some p \<and> p_status p = ''pending'' \<longrightarrow>
       partnership_of (snd (withdraw_partner a subId d)) subId (a_id a) = None \<and>
       (active_count (snd (withdraw_partner a subId d)) subId < 3 \<longrightarrow>
          partnership_of (snd (claim_partner a subId now (snd (withdraw_partner a subId d))))
            subId (a_id a) =
          Some (new_row (Suc (last_partnership_id d)) subId (a_id a) now))) \<and>
    (partnership_of d subId (a_id a) = Some p \<and> p_status p = ''declined'' \<longrightarrow>
       p \<in> set (partnerships (run ops d)) \<and>
       claim_partner a subId now (run ops d) =
         (Err 409 ''You have already requested to partner'', run ops d))"
proof (intro conjI impI)
  show u: "unique_pair (run ops d)" using up by (rule run_unique_pair)
  have "length (filter (\<lambda>q. (p_submission_id q, p_user_id q) = (s, u)) (partnerships (run ops d))) \<le> 1"
    using u unfolding unique_pair_def by (rule distinct_key_count)
  then show "length (filter (\<lambda>q. p_submission_id q = s \<and> p_user_id q = u) (partnerships (run ops d))) \<le> 1"
    by simp
next
  assume "partnership_of d subId (a_id a) \<noteq> None"
  with role sub show "claim_partner a subId now d = (Err 409 ''You have already requested to partner'', d)"
    by (rule claim_409)
next
  assume h: "partnership_of d subId (a_id a) = Some p \<and> p_status p = ''pending''"
  then have p: "partnership_of d subId (a_id a) = Some p" and st: "p_status p = ''pending''" by simp_all
  show "partnership_of (snd (withdraw_partner a subId d)) subId (a_id a) = None"
    using role up p st by (rule withdraw_pending(1))
next
  assume h: "partnership_of d subId (a_id a) = Some p \<and> p_status p = ''pending''"
    and room: "active_count (snd (withdraw_partner a subId d)) subId < 3"
  let ?w = "snd (withdraw_partner a subId d)"
  from h have p: "partnership_of d subId (a_id a) = Some p" and st: "p_status p = ''pending''" by simp_all
  have none: "partnership_of ?w subId (a_id a) = None"
    using role up p st by (rule withdraw_pending(1))
  have w: "?w = step (Withdraw a subId) d" by simp
  have tw: "submissions ?w = submissions d"
    using step_tables[of "Withdraw a subId" d] by simp
  have subw: "submission_by_id ?w subId \<noteq> None"
    using sub by (simp add: submission_by_id_def tw)
  have lw: "last_partnership_id ?w = last_partnership_id d"
    by (simp add: withdraw_partner_def Let_def split: option.splits)
  show "partnership_of (snd (claim_partner a subId now ?w)) subId (a_id a) =
          Some (new_row (Suc (last_partnership_id d)) subId (a_id a) now)"
    using none unfolding claim_inserts[OF role subw none room, of now] lw
    by (simp add: partnership_of_def find_append_None new_row_def)
next
  assume h: "partnership_of d subId (a_id a) = Some p \<and> p_status p = ''declined''"
  then have pin: "p \<in> set (partnerships d)" "p_submission_id p = subId" "p_user_id p = a_id a"
    by (auto dest: partnership_of_Some)
  show stays: "p \<in> set (partnerships (run ops d))"
    using pk pin(1) h by (intro declined_stays_run) simp_all
  then have "partnership_of (run ops d) subId (a_id a) \<noteq> None"
    using pin by (intro partnership_of_exists[of p]) simp_all
  moreover have "submission_by_id (run ops d) subId \<noteq> None" using sub by simp
  ultimately show "claim_partner a subId now (run ops d) =
         (Err 409 ''You have already requested to partner'', run ops d)"
    using role by (intro claim_409) simp_all
qed

text \<open>
  Claim C3, where the code departs from it. Aisha holds a pending row on submission 1. Her
  withdrawal deletes the row, as the claim says, but is answered 400 with
  \<^verbatim>\<open>No pending partnership to withdraw\<close>, because \<^verbatim>\<open>result.changes\<close> is read as 0. Her new claim,
  with two partners left on the submission, inserts a fresh pending row, but the handler
  throws after the insert and the request is answered 500: the query by
  \<^verbatim>\<open>result.lastInsertRowid\<close> looks for the partnership with id 0 and finds none. So the
  re-claim after a withdrawal does not succeed for the member who makes it, although the row
  is there; a further claim is answered 409.
\<close>

theorem withdraw_and_reclaim_replies:
  "map_option p_status (partnership_of partnered_db 1 (a_id aisha)) = Some ''pending'' \<and>
   fst (withdraw_partner aisha 1 partnered_db) = Err 400 ''No pending partnership to withdraw'' \<and>
   partnership_of (snd (withdraw_partner aisha 1 partnered_db)) 1 (a_id aisha) = None \<and>
   active_count (snd (withdraw_partner aisha 1 partnered_db)) 1 = 2 \<and>
   fst (claim_partner aisha 1 91 (snd (withdraw_partner aisha 1 partnered_db))) = Uncaught \<and>
   map_option (\<lambda>p. (p_id p, p_status p))
     (partnership_of (snd (claim_partner aisha 1 91 (snd (withdraw_partner aisha 1 partnered_db))))
        1 (a_id aisha)) = Some (5, ''pending'') \<and>
   fst (claim_partner aisha 1 92
          (snd (claim_partner aisha 1 91 (snd (withdraw_partner aisha 1 partnered_db))))) =
     Err 409 ''You have already requested to partner''"
  by (simp add: withdraw_partner_def claim_partner_def insert_partnership_def requireRole_def
      partnership_of_def active_count_def submission_by_id_def user_by_id_def join_users_def
      map_filter_simps new_row_def Let_def aisha_def partnered_defs)

subsection \<open>Creating users\<close>

lemma lower_unit_idem: "lower_unit (lower_unit c) = lower_unit c"
proof (cases "(65 \<le> (of_char c :: nat) \<and> (of_char c :: nat) \<le> 90) \<or>
              (192 \<le> (of_char c :: nat) \<and> (of_char c :: nat) \<le> 222 \<and> (of_char c :: nat) \<noteq> 215)")
  case True
  define n where "n = (of_char c :: nat)"
  have a: "lower_unit c = char_of (n + 32)"
    using True by (simp add: lower_unit_def Let_def n_def)
  have "n + 32 < 256" using True by (auto simp: n_def)
  then have b: "(of_char (char_of (n + 32)) :: nat) = n + 32" by simp
  have "lower_unit (char_of (n + 32)) = char_of (n + 32)"
    using True unfolding lower_unit_def Let_def b by (auto simp: n_def)
  then show ?thesis by (simp add: a)
next
  case False
  then show ?thesis by (auto simp: lower_unit_def Let_def)
qed

lemma toLowerCase_idem: "toLowerCase (toLowerCase s) = toLowerCase s"
  by (simp add: toLowerCase_def lower_unit_idem)

lemma insert_user_Some:
  assumes "insert_user e p n r s d = Some d'"
  shows "(r = ''founder'' \<or> r = ''board'') \<and>
     d' = d\<lparr>users := users d @ [\<lparr>u_id = Suc (last_user_id d), u_email = e, u_password = p, u_name = n,
                                u_role = r, u_specialty = s\<rparr>],
           last_user_id := Suc (last_user_id d)\<rparr>"
  using assms by (auto simp: insert_user_def Let_def split: if_splits)

lemma register_snd_cases:
  "snd (register h name email password d) = d \<or>
   (\<exists>em pw nm. 
      snd (register h name email password d) =
        d\<lparr>users := users d @ [\<lparr>u_id = Suc (last_user_id d), u_email = toLowerCase em, u_password = pw,
                                 u_name = nm, u_role = ''founder'', u_specialty = None\<rparr>],
          last_user_id := Suc (last_user_id d)\<rparr>)"
proof (cases "snd (register h name email password d) = d")
  case True
  then show ?thesis by simp
next
  case False
  then obtain nm em pw d' where
    i: "insert_user (toLowerCase em) (h pw) nm ''founder'' None d = Some d'"
    and r: "snd (register h name email password d) = d'"
    by (auto simp: register_def Let_def split: option.splits if_splits prod.splits)
  from insert_user_Some[OF i] r show ?thesis by blast
qed

lemma create_snd_cases:
  "snd (create_board_member h a name email password specialty d) = d \<or>
   (\<exists>em pw nm sp. 
      snd (create_board_member h a name email password specialty d) =
        d\<lparr>users := users d @ [\<lparr>u_id = Suc (last_user_id d), u_email = toLowerCase em, u_password = pw,
                                 u_name = nm, u_role = ''board'', u_specialty = sp\<rparr>],
          last_user_id := Suc (last_user_id d)\<rparr>)"
proof (cases "snd (create_board_member h a name email password specialty d) = d")
  case True
  then show ?thesis by simp
next
  case False
  then obtain nm em pw sp d' where
    i: "insert_user (toLowerCase em) (h pw) nm ''board'' sp d = Some d'"
    and r: "snd (create_board_member h a name email password specialty d) = d'"
    by (auto simp: create_board_member_def Let_def split: option.splits if_splits prod.splits)
  from insert_user_Some[OF i] r show ?thesis by blast
qed

lemma user_step_cases:
  obtains (same) "user_step h op d = d"
  | (added) em pw nm r sp where "r = ''founder'' \<or> r = ''board''"
      "user_step h op d =
        d\<lparr>users := users d @ [\<lparr>u_id = Suc (last_user_id d), u_email = toLowerCase em, u_password = pw,
                                 u_name = nm, u_role = r, u_specialty = sp\<rparr>],
          last_user_id := Suc (last_user_id d)\<rparr>"
proof (cases op)
  case (Register name email password)
  from register_snd_cases[of h name email password d] show ?thesis
  proof (elim disjE exE conjE)
    assume "snd (register h name email password d) = d"
    then show ?thesis using Register by (intro same) simp
  next
    fix em pw nm
    assume "snd (register h name email password d) =
        d\<lparr>users := users d @ [\<lparr>u_id = Suc (last_user_id d), u_email = toLowerCase em, u_password = pw,
                                 u_name = nm, u_role = ''founder'', u_specialty = None\<rparr>],
          last_user_id := Suc (last_user_id d)\<rparr>"
    then show ?thesis using Register
      by (intro added[where r = "''founder''" and em = em and pw = pw and nm = nm and sp = None]) simp_all
  qed
next
  case (CreateBoardMember a name email password specialty)
  from create_snd_cases[of h a name email password specialty d] show ?thesis
  proof (elim disjE exE conjE)
    assume "snd (create_board_member h a name email password specialty d) = d"
    then show ?thesis using CreateBoardMember by (intro same) simp
  next
    fix em pw nm sp
    assume "snd (create_board_member h a name email password specialty d) =
        d\<lparr>users := users d @ [\<lparr>u_id = Suc (last_user_id d), u_email = toLowerCase em, u_password = pw,
                                 u_name = nm, u_role = ''board'', u_specialty = sp\<rparr>],
          last_user_id := Suc (last_user_id d)\<rparr>"
    then show ?thesis using CreateBoardMember
      by (intro added[where r = "''board''" and em = em and pw = pw and nm = nm and sp = sp]) simp_all
  qed
qed

lemma run_users_Nil [simp]: "run_users h [] d = d"
  and run_users_Cons [simp]: "run_users h (op # ops) d = run_users h ops (user_step h op d)"
  by (simp_all add: run_users_def)

lemma user_step_keeps: "u \<in> set (users d) \<Longrightarrow> u \<in> set (users (user_step h op d))"
  by (cases h op d rule: user_step_cases) simp_all

lemma run_users_keeps: "u \<in> set (users d) \<Longrightarrow> u \<in> set (users (run_users h ops d))"
  by (induction ops arbitrary: d) (auto intro: user_step_keeps)

lemma user_step_roles:
  "list_all (\<lambda>u. u_role u = ''founder'' \<or> u_role u = ''board'') (users d) \<Longrightarrow>
   list_all (\<lambda>u. u_role u = ''founder'' \<or> u_role u = ''board'') (users (user_step h op d))"
  by (cases h op d rule: user_step_cases) auto

lemma run_users_roles:
  "list_all (\<lambda>u. u_role u = ''founder'' \<or> u_role u = ''board'') (users d) \<Longrightarrow>
   list_all (\<lambda>u. u_role u = ''founder'' \<or> u_role u = ''board'') (users (run_users h ops d))"
  by (induction ops arbitrary: d) (auto intro: user_step_roles)

text \<open>Both creation routes store the e-mail in lower case, so a table in lower case stays so.\<close>

lemma user_step_lower:
  "list_all (\<lambda>u. toLowerCase (u_email u) = u_email u) (users d) \<Longrightarrow>
   list_all (\<lambda>u. toLowerCase (u_email u) = u_email u) (users (user_step h op d))"
  by (cases h op d rule: user_step_cases) (auto simp: toLowerCase_idem)

lemma run_users_lower:
  "list_all (\<lambda>u. toLowerCase (u_email u) = u_email u) (users d) \<Longrightarrow>
   list_all (\<lambda>u. toLowerCase (u_email u) = u_email u) (users (run_users h ops d))"
  by (induction ops arbitrary: d) (auto intro: user_step_lower)

lemma register_missing:
  "name = None \<or> name = Some [] \<or> email = None \<or> email = Some [] \<or>
   password = None \<or> password = Some [] \<Longrightarrow>
   register h name email password d = (Err 400 ''Name, email, and password are required'', d)"
  by (auto simp: register_def split: option.splits)

lemma register_short:
  "nm \<noteq> [] \<Longrightarrow> em \<noteq> [] \<Longrightarrow> pw \<noteq> [] \<Longrightarrow> length pw < 8 \<Longrightarrow>
   register h (Some nm) (Some em) (Some pw) d =
     (Err 400 ''Password must be at least 8 characters'', d)"
  by (simp add: register_def)

lemma register_taken:
  "nm \<noteq> [] \<Longrightarrow> em \<noteq> [] \<Longrightarrow> pw \<noteq> [] \<Longrightarrow> 8 \<le> length pw \<Longrightarrow>
   u \<in> set (users d) \<Longrightarrow> u_email u = toLowerCase em \<Longrightarrow>
   register h (Some nm) (Some em) (Some pw) d =
     (Err 409 ''An account with this email already exists'', d)"
  by (auto simp: register_def find_None_iff)

lemma register_inserts:
  assumes "nm \<noteq> []" "em \<noteq> []" "pw \<noteq> []" "8 \<le> length pw"
    and free: "find (\<lambda>u. u_email u = toLowerCase em) (users d) = None"
  shows "snd (register h (Some nm) (Some em) (Some pw) d) =
      d\<lparr>users := users d @ [\<lparr>u_id = Suc (last_user_id d), u_email = toLowerCase em,
                               u_password = h pw, u_name = nm, u_role = ''founder'',
                               u_specialty = None\<rparr>],
        last_user_id := Suc (last_user_id d)\<rparr>"
proof -
  have "toLowerCase em \<notin> set (map u_email (users d))"
    using free by (auto simp: find_None_iff)
  then have "insert_user (toLowerCase em) (h pw) nm ''founder'' None d =
      Some (d\<lparr>users := users d @ [\<lparr>u_id = Suc (last_user_id d), u_email = toLowerCase em,
                               u_password = h pw, u_name = nm, u_role = ''founder'',
                               u_specialty = None\<rparr>],
              last_user_id := Suc (last_user_id d)\<rparr>)"
    by (simp add: insert_user_def)
  then show ?thesis
    using assms(1-4) free by (simp add: register_def Let_def split: option.splits)
qed

text \<open>
  The answer to a registration that has inserted its row: the query by \<^verbatim>\<open>lastInsertRowid\<close>
  asks for the user with id 0, and where there is none \<^verbatim>\<open>createToken\<close> throws: the request is
  answered 500, the new row in place.
\<close>

lemma register_reply_after_insert:
  assumes "nm \<noteq> []" "em \<noteq> []" "pw \<noteq> []" "8 \<le> length pw"
    and free: "find (\<lambda>u. u_email u = toLowerCase em) (users d) = None"
    and zero: "user_by_id d 0 = None"
  shows "fst (register h (Some nm) (Some em) (Some pw) d) = Uncaught"
proof -
  let ?u = "\<lparr>u_id = Suc (last_user_id d), u_email = toLowerCase em, u_password = h pw, u_name = nm,
             u_role = ''founder'', u_specialty = None\<rparr>"
  let ?d = "d\<lparr>users := users d @ [?u], last_user_id := Suc (last_user_id d)\<rparr>"
  have "toLowerCase em \<notin> set (map u_email (users d))"
    using free by (auto simp: find_None_iff)
  then have ins: "insert_user (toLowerCase em) (h pw) nm ''founder'' None d = Some ?d"
    by (simp add: insert_user_def)
  have "account_by_id ?d 0 = None"
    using zero by (simp add: account_by_id_def user_by_id_def find_append_None)
  then show ?thesis
    using assms(1-4) free ins by (simp add: register_def)
qed

lemma register_adds_founders:
  assumes "r \<in> set (users (snd (register h name email password d)))"
  shows "r \<in> set (users d) \<or> u_role r = ''founder''"
  using register_snd_cases[of h name email password d] assms by auto

text \<open>
  Claim C7. Registration is answered 400 when the name, the e-mail or the password is missing
  (or empty) and when the password has fewer than 8 characters. It is answered 409 when some
  user's stored e-mail, stored in lower case as both creation routes store it, is the new
  e-mail up to the case of its letters. Otherwise the registration adds one row to the users
  table, with the lower-cased e-mail and the role founder; from then on, whatever users are
  created meanwhile, registering any case variant of that e-mail is answered 409. Whatever
  the request, every user the table holds afterwards was there before or is a founder.
\<close>

theorem register_checks:
  "(name = None \<or> name = Some [] \<or> email = None \<or> email = Some [] \<or>
    password = None \<or> password = Some [] \<longrightarrow>
      register h name email password d =
        (Err 400 ''Name, email, and password are required'', d)) \<and>
   (nm \<noteq> [] \<and> em \<noteq> [] \<and> pw \<noteq> [] \<longrightarrow>
      (length pw < 8 \<longrightarrow>
         register h (Some nm) (Some em) (Some pw) d =
           (Err 400 ''Password must be at least 8 characters'', d)) \<and>
      (8 \<le> length pw \<and> u \<in> set (users d) \<and> toLowerCase (u_email u) = u_email u \<and>
       toLowerCase em = toLowerCase (u_email u) \<longrightarrow>
         register h (Some nm) (Some em) (Some pw) d =
           (Err 409 ''An account with this email already exists'', d)) \<and>
      (8 \<le> length pw \<and> find (\<lambda>u. u_email u = toLowerCase em) (users d) = None \<longrightarrow>
         users (snd (register h (Some nm) (Some em) (Some pw) d)) =
           users d @ [\<lparr>u_id = Suc (last_user_id d), u_email = toLowerCase em, u_password = h pw,
                        u_name = nm, u_role = ''founder'', u_specialty = None\<rparr>] \<and>
         (nm' \<noteq> [] \<and> em' \<noteq> [] \<and> 8 \<le> length pw' \<and> toLowerCase em' = toLowerCase em \<longrightarrow>
            register h (Some nm') (Some em') (Some pw')
              (run_users h ops (snd (register h (Some nm) (Some em) (Some pw) d))) =
              (Err 409 ''An account with this email already exists'',
               run_users h ops (snd (register h (Some nm) (Some em) (Some pw) d)))))) \<and>
   (\<forall>r\<in>set (users (snd (register h name email password d))).
      r \<in> set (users d) \<or> u_role r = ''founder'')"
proof (intro conjI impI ballI)
  assume "name = None \<or> name = Some [] \<or> email = None \<or> email = Some [] \<or>
    password = None \<or> password = Some []"
  then show "register h name email password d =
        (Err 400 ''Name, email, and password are required'', d)"
    by (rule register_missing)
next
  assume "nm \<noteq> [] \<and> em \<noteq> [] \<and> pw \<noteq> []" "length pw < 8"
  then show "register h (Some nm) (Some em) (Some pw) d =
           (Err 400 ''Password must be at least 8 characters'', d)"
    by (intro register_short) simp_all
next
  assume v: "nm \<noteq> [] \<and> em \<noteq> [] \<and> pw \<noteq> []"
    and t: "8 \<le> length pw \<and> u \<in> set (users d) \<and> toLowerCase (u_email u) = u_email u \<and>
       toLowerCase em = toLowerCase (u_email u)"
  then have "u_email u = toLowerCase em" by simp
  with v t show "register h (Some nm) (Some em) (Some pw) d =
           (Err 409 ''An account with this email already exists'', d)"
    by (intro register_taken[of nm em pw u]) simp_all
next
  assume v: "nm \<noteq> [] \<and> em \<noteq> [] \<and> pw \<noteq> []"
    and s: "8 \<le> length pw \<and> find (\<lambda>u. u_email u = toLowerCase em) (users d) = None"
  let ?u = "\<lparr>u_id = Suc (last_user_id d), u_email = toLowerCase em, u_password = h pw, u_name = nm,
             u_role = ''founder'', u_specialty = None\<rparr>"
  let ?d = "d\<lparr>users := users d @ [?u], last_user_id := Suc (last_user_id d)\<rparr>"
  from v s have ok: "snd (register h (Some nm) (Some em) (Some pw) d) = ?d"
    by (intro register_inserts) simp_all
  show "users (snd (register h (Some nm) (Some em) (Some pw) d)) = users d @ [?u]"
    unfolding ok by simp
  assume n: "nm' \<noteq> [] \<and> em' \<noteq> [] \<and> 8 \<le> length pw' \<and> toLowerCase em' = toLowerCase em"
  have "?u \<in> set (users ?d)" by simp
  then have "?u \<in> set (users (run_users h ops ?d))"
    by (rule run_users_keeps)
  moreover have "u_email ?u = toLowerCase em'" using n by simp
  moreover have "pw' \<noteq> []" using n by auto
  ultimately have "register h (Some nm') (Some em') (Some pw') (run_users h ops ?d) =
              (Err 409 ''An account with this email already exists'', run_users h ops ?d)"
    using n by (intro register_taken[of nm' em' pw' ?u]) simp_all
  then show "register h (Some nm') (Some em') (Some pw')
              (run_users h ops (snd (register h (Some nm) (Some em) (Some pw) d))) =
              (Err 409 ''An account with this email already exists'',
               run_users h ops (snd (register h (Some nm) (Some em) (Some pw) d)))"
    unfolding ok by simp
next
  fix r
  assume "r \<in> set (users (snd (register h name email password d)))"
  then show "r \<in> set (users d) \<or> u_role r = ''founder''"
    by (rule register_adds_founders)
qed

lemma lower_examples:
  "toLowerCase ''Founder@Demo.COM'' = ''founder@demo.com''"
  "toLowerCase ''founder@demo.com'' = ''founder@demo.com''"
  "toLowerCase ''Bob@Example.com'' = ''bob@example.com''"
  "toLowerCase ''BOB@EXAMPLE.COM'' = ''bob@example.com''"
  by code_simp+

theorem register_checks_witness:
  "register id None (Some ''bob@example.com'') (Some ''12345678'') seed_db =
     (Err 400 ''Name, email, and password are required'', seed_db) \<and>
   register id (Some ''Bob'') (Some ''bob@example.com'') (Some ''1234567'') seed_db =
     (Err 400 ''Password must be at least 8 characters'', seed_db) \<and>
   u_email (hd (users seed_db)) = ''founder@demo.com'' \<and>
   register id (Some ''Bob'') (Some ''Founder@Demo.COM'') (Some ''12345678'') seed_db =
     (Err 409 ''An account with this email already exists'', seed_db) \<and>
   find (\<lambda>u. u_email u = ''bob@example.com'') (users seed_db) = None \<and>
   map (\<lambda>u. (u_id u, u_email u, u_role u))
     (users (snd (register id (Some ''Bob'') (Some ''Bob@Example.com'') (Some ''12345678'') seed_db))) =
     [(1, ''founder@demo.com'', ''founder''), (2, ''sarah@partner.io'', ''board''),
      (3, ''james@partner.io'', ''board''), (4, ''bob@example.com'', ''founder'')] \<and>
   fst (register id (Some ''Eve'') (Some ''BOB@EXAMPLE.COM'') (Some ''abcdefgh'')
     (run_users id [Register (Some ''Dan'') (Some ''dan@example.com'') (Some ''12345678'')]
        (snd (register id (Some ''Bob'') (Some ''Bob@Example.com'') (Some ''12345678'') seed_db)))) =
     Err 409 ''An account with this email already exists'' \<and>
   list_all (\<lambda>r. r \<in> set (users seed_db) \<or> u_role r = ''founder'')
     (users (snd (register id (Some ''Bob'') (Some ''Bob@Example.com'') (Some ''12345678'') seed_db)))"
proof -
  let ?u = "hd (users seed_db)"
  let ?ops = "[Register (Some ''Dan'') (Some ''dan@example.com'') (Some ''12345678'')]"
  let ?bob = "register id (Some ''Bob'') (Some ''Bob@Example.com'') (Some ''12345678'') seed_db"
  have u: "?u \<in> set (users seed_db)" "u_email ?u = ''founder@demo.com''"
    by (simp_all add: seed_db_def seed_users_def)
  have free: "find (\<lambda>u. u_email u = ''bob@example.com'') (users seed_db) = None"
    by (simp add: seed_db_def seed_users_def)
  note t1 = register_checks [where h = id and name = None and email = "Some ''bob@example.com''"
      and password = "Some ''12345678''" and d = seed_db and nm = "''Bob''" and em = "''bob@example.com''"
      and pw = "''1234567''"]
  note t2 = register_checks [where h = id and d = seed_db and nm = "''Bob''" and em = "''Founder@Demo.COM''"
      and pw = "''12345678''" and u = ?u]
  note t3 = register_checks [where h = id and d = seed_db and nm = "''Bob''" and em = "''Bob@Example.com''"
      and pw = "''12345678''" and name = "Some ''Bob''" and email = "Some ''Bob@Example.com''"
      and password = "Some ''12345678''"
      and nm' = "''Eve''" and em' = "''BOB@EXAMPLE.COM''" and pw' = "''abcdefgh''" and ops = ?ops]
  from t1 have 1: "register id None (Some ''bob@example.com'') (Some ''12345678'') seed_db =
     (Err 400 ''Name, email, and password are required'', seed_db)" by simp
  from t1 have 2: "register id (Some ''Bob'') (Some ''bob@example.com'') (Some ''1234567'') seed_db =
     (Err 400 ''Password must be at least 8 characters'', seed_db)" by simp
  from t2 u have 3: "register id (Some ''Bob'') (Some ''Founder@Demo.COM'') (Some ''12345678'') seed_db =
     (Err 409 ''An account with this email already exists'', seed_db)"
    by (simp add: lower_examples)
  from t3 free have us: "users (snd ?bob) =
      users seed_db @ [\<lparr>u_id = Suc (last_user_id seed_db), u_email = ''bob@example.com'',
                        u_password = ''12345678'', u_name = ''Bob'', u_role = ''founder'',
                        u_specialty = None\<rparr>]"
    by (simp add: lower_examples)
  have 4: "map (\<lambda>u. (u_id u, u_email u, u_role u)) (users (snd ?bob)) =
     [(1, ''founder@demo.com'', ''founder''), (2, ''sarah@partner.io'', ''board''),
      (3, ''james@partner.io'', ''board''), (4, ''bob@example.com'', ''founder'')]"
    unfolding us by (simp add: seed_db_def seed_users_def)
  from t3 free have "register id (Some ''Eve'') (Some ''BOB@EXAMPLE.COM'') (Some ''abcdefgh'')
     (run_users id ?ops (snd ?bob)) =
     (Err 409 ''An account with this email already exists'', run_users id ?ops (snd ?bob))"
    by (simp add: lower_examples)
  then have 5: "fst (register id (Some ''Eve'') (Some ''BOB@EXAMPLE.COM'') (Some ''abcdefgh'')
     (run_users id ?ops (snd ?bob))) = Err 409 ''An account with this email already exists''"
    by simp
  from t3 have "\<forall>r\<in>set (users (snd ?bob)). r \<in> set (users seed_db) \<or> u_role r = ''founder''"
    by blast
  then have 6: "list_all (\<lambda>r. r \<in> set (users seed_db) \<or> u_role r = ''founder'') (users (snd ?bob))"
    by (simp only: list_all_iff)
  from 1 2 u(2) 3 free 4 5 6 show ?thesis by (intro conjI)
qed

text \<open>
  The registration of the example is answered 500: its row is inserted, and the query by
  \<^verbatim>\<open>lastInsertRowid\<close> finds no user with id 0.
\<close>

lemma register_example_reply:
  "fst (register id (Some ''Bob'') (Some ''Bob@Example.com'') (Some ''12345678'') seed_db) = Uncaught"
proof -
  have "find (\<lambda>u. u_email u = toLowerCase ''Bob@Example.com'') (users seed_db) = None"
    by (simp add: lower_examples seed_db_def seed_users_def)
  moreover have "user_by_id seed_db 0 = None"
    by (simp add: user_by_id_def seed_db_def seed_users_def)
  ultimately show ?thesis by (intro register_reply_after_insert) simp_all
qed

lemma run_users_role_check: "role_check d \<Longrightarrow> role_check (run_users h ops d)"
  unfolding role_check_def by (rule run_users_roles)

lemma account_by_id_role:
  "account_by_id d i = Some acc \<Longrightarrow> \<exists>u\<in>set (users d). u_role u = acc_role acc"
  by (auto simp: account_by_id_def account_of_def user_by_id_def dest: find_mem)

subsection \<open>No admin among the users\<close>

text \<open>
  Claim C9. The insert into \<open>users\<close> refuses the role \<^verbatim>\<open>admin\<close>. From a users table that passes
  the role check (the empty one, or the seeded one), every run of registrations and
  board-member creations, whoever asks for them, leaves only founders and board members.
  The token made from any persisted user therefore never takes the admin branch of
  \<^verbatim>\<open>requireRole\<close>, is answered 403 by \<^verbatim>\<open>requireRole("admin")\<close>, and cannot create a board member.
\<close>

theorem no_admin_user:
  assumes "role_check d"
  shows
   "insert_user e p n ''admin'' sp dx = None \<and>
    role_check (run_users h ops d) \<and>
    (\<forall>u\<in>set (users (run_users h ops d)). u_role u = ''founder'' \<or> u_role u = ''board'') \<and>
    (account_by_id (run_users h ops d) i = Some acc \<longrightarrow>
       a_role (createToken acc) \<noteq> ''admin'' \<and>
       requireRole ''admin'' (createToken acc) =
         Some (Err 403 ''Access restricted to admin members'' :: unit reply) \<and>
       create_board_member h (createToken acc) name email password specialty dc =
         (Err 403 ''Access restricted to admin members'', dc))"
proof (intro conjI impI)
  show "insert_user e p n ''admin'' sp dx = None" by (simp add: insert_user_def)
  show rc: "role_check (run_users h ops d)" using assms by (rule run_users_role_check)
  then show "\<forall>u\<in>set (users (run_users h ops d)). u_role u = ''founder'' \<or> u_role u = ''board''"
    by (simp add: role_check_def list_all_iff)
  assume "account_by_id (run_users h ops d) i = Some acc"
  then obtain u where "u \<in> set (users (run_users h ops d))" "u_role u = acc_role acc"
    by (auto dest: account_by_id_role)
  with rc have r: "acc_role acc = ''founder'' \<or> acc_role acc = ''board''"
    by (auto simp: role_check_def list_all_iff)
  then show na: "a_role (createToken acc) \<noteq> ''admin''"
    by (auto simp: createToken_def)
  from r show "requireRole ''admin'' (createToken acc) =
         Some (Err 403 ''Access restricted to admin members'' :: unit reply)"
    by (auto simp: requireRole_def createToken_def)
  from r show "create_board_member h (createToken acc) name email password specialty dc =
         (Err 403 ''Access restricted to admin members'', dc)"
    by (auto simp: create_board_member_def requireRole_def createToken_def)
qed

lemma demo_user_run:
  "map (\<lambda>u. (u_id u, u_email u, u_role u))
     (users (run_users id
        [Register (Some ''Bob'') (Some ''Bob@Example.com'') (Some ''12345678''),
         CreateBoardMember sarah (Some ''Mia'') (Some ''mia@partner.io'') (Some ''12345678'') None,
         CreateBoardMember forged_admin (Some ''Maya Roberts'') (Some ''Maya@Partner.io'')
           (Some ''Demo1234!'') (Some ''Impact & CleanTech'')] seed_db)) =
   [(1, ''founder@demo.com'', ''founder''), (2, ''sarah@partner.io'', ''board''),
    (3, ''james@partner.io'', ''board''), (4, ''bob@example.com'', ''founder''),
    (5, ''maya@partner.io'', ''board'')]"
proof -
  have l: "toLowerCase ''Maya@Partner.io'' = ''maya@partner.io''" by code_simp
  show ?thesis
    by (simp add: register_def create_board_member_def requireRole_def insert_user_def
        account_by_id_def account_of_def user_by_id_def createToken_def lower_examples l sarah_def
        forged_admin_def seed_db_def seed_users_def)
qed

theorem no_admin_user_witness:
  "role_check seed_db \<and>
   insert_user ''root@partner.io'' ''hp'' ''Root'' ''admin'' None seed_db = None \<and>
   map (\<lambda>u. (u_id u, u_email u, u_role u))
     (users (run_users id
        [Register (Some ''Bob'') (Some ''Bob@Example.com'') (Some ''12345678''),
         CreateBoardMember sarah (Some ''Mia'') (Some ''mia@partner.io'') (Some ''12345678'') None,
         CreateBoardMember forged_admin (Some ''Maya Roberts'') (Some ''Maya@Partner.io'')
           (Some ''Demo1234!'') (Some ''Impact & CleanTech'')] seed_db)) =
   [(1, ''founder@demo.com'', ''founder''), (2, ''sarah@partner.io'', ''board''),
    (3, ''james@partner.io'', ''board''), (4, ''bob@example.com'', ''founder''),
    (5, ''maya@partner.io'', ''board'')] \<and>
   role_check (run_users id
        [Register (Some ''Bob'') (Some ''Bob@Example.com'') (Some ''12345678''),
         CreateBoardMember sarah (Some ''Mia'') (Some ''mia@partner.io'') (Some ''12345678'') None,
         CreateBoardMember forged_admin (Some ''Maya Roberts'') (Some ''Maya@Partner.io'')
           (Some ''Demo1234!'') (Some ''Impact & CleanTech'')] seed_db) \<and>
   account_by_id seed_db 2 =
     Some \<lparr>acc_id = 2, acc_email = ''sarah@partner.io'', acc_name = ''Sarah Kingston'', acc_role = ''board''\<rparr> \<and>
   requireRole ''admin''
     (createToken \<lparr>acc_id = 2, acc_email = ''sarah@partner.io'', acc_name = ''Sarah Kingston'', acc_role = ''board''\<rparr>) =
     Some (Err 403 ''Access restricted to admin members'' :: unit reply) \<and>
   fst (create_board_member id
     (createToken \<lparr>acc_id = 2, acc_email = ''sarah@partner.io'', acc_name = ''Sarah Kingston'', acc_role = ''board''\<rparr>)
     (Some ''Mia'') (Some ''mia@partner.io'') (Some ''12345678'') None seed_db) =
     Err 403 ''Access restricted to admin members''"
proof -
  let ?ops = "[Register (Some ''Bob'') (Some ''Bob@Example.com'') (Some ''12345678''),
         CreateBoardMember sarah (Some ''Mia'') (Some ''mia@partner.io'') (Some ''12345678'') None,
         CreateBoardMember forged_admin (Some ''Maya Roberts'') (Some ''Maya@Partner.io'')
           (Some ''Demo1234!'') (Some ''Impact & CleanTech'')]"
  let ?acc = "\<lparr>acc_id = 2, acc_email = ''sarah@partner.io'', acc_name = ''Sarah Kingston'', acc_role = ''board''\<rparr>"
  have rc: "role_check seed_db" by (simp add: role_check_def seed_db_def seed_users_def)
  have a: "account_by_id seed_db 2 = Some ?acc"
    by (simp add: account_by_id_def account_of_def user_by_id_def seed_db_def seed_users_def)
  note t = no_admin_user [OF rc, where h = id and ops = ?ops and e = "''root@partner.io''" and p = "''hp''"
      and n = "''Root''" and sp = None and dx = seed_db]
  note t0 = no_admin_user [OF rc, where h = id and ops = "[]" and i = 2 and acc = ?acc
      and name = "Some ''Mia''" and email = "Some ''mia@partner.io''" and password = "Some ''12345678''"
      and specialty = None and dc = seed_db]
  from t have 1: "insert_user ''root@partner.io'' ''hp'' ''Root'' ''admin'' None seed_db = None"
    and 2: "role_check (run_users id ?ops seed_db)"
    by blast+
  from t0 a have 3: "requireRole ''admin'' (createToken ?acc) =
     Some (Err 403 ''Access restricted to admin members'' :: unit reply)"
    and "create_board_member id (createToken ?acc)
     (Some ''Mia'') (Some ''mia@partner.io'') (Some ''12345678'') None seed_db =
     (Err 403 ''Access restricted to admin members'', seed_db)"
    by simp_all
  then have 4: "fst (create_board_member id (createToken ?acc)
     (Some ''Mia'') (Some ''mia@partner.io'') (Some ''12345678'') None seed_db) =
     Err 403 ''Access restricted to admin members''"
    by simp
  from rc 1 demo_user_run 2 a 3 4 show ?thesis by (intro conjI)
qed

subsection \<open>Rounding to a double\<close>

lemma floorlog_power_bounds:
  fixes n :: nat
  assumes "0 < n"
  shows "(2::rat) ^ (floorlog 2 n - 1) \<le> of_nat n" "(of_nat n :: rat) < 2 ^ floorlog 2 n"
    "0 < floorlog 2 n"
proof -
  from floorlog_bounds[of n 2] assms
  have a: "2 ^ (floorlog 2 n - 1) \<le> n" and b: "n < 2 ^ floorlog 2 n" by simp_all
  from a have "(of_nat (2 ^ (floorlog 2 n - 1)) :: rat) \<le> of_nat n"
    by (simp only: of_nat_le_iff)
  then show "(2::rat) ^ (floorlog 2 n - 1) \<le> of_nat n" by simp
  from b have "(of_nat n :: rat) < of_nat (2 ^ floorlog 2 n)"
    by (simp only: of_nat_less_iff)
  then show "(of_nat n :: rat) < 2 ^ floorlog 2 n" by simp
  show "0 < floorlog 2 n"
  proof (rule ccontr)
    assume "\<not> 0 < floorlog 2 n"
    then have "floorlog 2 n = 0" by simp
    then have "(2::nat) \<le> 1 \<or> n \<le> 0" by (simp only: floorlog_eq_zero_iff)
    with assms show False by simp
  qed
qed

lemma ilog2_lower:
  assumes "0 < x"
  shows "2 powi (ilog2 x) \<le> x"
proof -
  obtain p q where pq: "quotient_of x = (p, q)" by (cases "quotient_of x")
  then have q: "0 < q" and x: "x = of_int p / of_int q"
    by (auto dest: quotient_of_denom_pos quotient_of_div)
  with assms have p: "0 < p" by (simp add: zero_less_divide_iff)
  define P Q where "P = nat p" and "Q = nat q"
  have P: "0 < P" "of_int p = (of_nat P :: rat)" and Q: "0 < Q" "of_int q = (of_nat Q :: rat)"
    using p q by (simp_all add: P_def Q_def)
  define bp bq where "bp = floorlog 2 P" and "bq = floorlog 2 Q"
  note bP = floorlog_power_bounds[OF P(1), folded bp_def]
  note bQ = floorlog_power_bounds[OF Q(1), folded bq_def]
  define k where "k = int bp - int bq"
  have il: "ilog2 x = (if 2 powi k \<le> x then k else k - 1)"
    by (simp add: ilog2_def pq k_def bp_def bq_def P_def Q_def bitlen_def)
  show ?thesis
  proof (cases "2 powi k \<le> x")
    case True
    with il show ?thesis by simp
  next
    case False
    have "k - 1 = int (bp - 1) - int bq" using bP(3) by (simp add: k_def)
    then have "(2::rat) powi (k - 1) = 2 ^ (bp - 1) / 2 ^ bq"
      by (simp add: power_int_diff)
    also have "\<dots> \<le> of_nat P / of_nat Q"
      using bP(1) bQ(2) Q(1) by (intro frac_le) simp_all
    also have "\<dots> = x" by (simp add: x P Q)
    finally show ?thesis using il False by simp
  qed
qed

lemma ilog2_upper:
  assumes "0 < x"
  shows "x < 2 powi (ilog2 x + 1)"
proof -
  obtain p q where pq: "quotient_of x = (p, q)" by (cases "quotient_of x")
  then have q: "0 < q" and x: "x = of_int p / of_int q"
    by (auto dest: quotient_of_denom_pos quotient_of_div)
  with assms have p: "0 < p" by (simp add: zero_less_divide_iff)
  define P Q where "P = nat p" and "Q = nat q"
  have P: "0 < P" "of_int p = (of_nat P :: rat)" and Q: "0 < Q" "of_int q = (of_nat Q :: rat)"
    using p q by (simp_all add: P_def Q_def)
  define bp bq where "bp = floorlog 2 P" and "bq = floorlog 2 Q"
  note bP = floorlog_power_bounds[OF P(1), folded bp_def]
  note bQ = floorlog_power_bounds[OF Q(1), folded bq_def]
  define k where "k = int bp - int bq"
  have il: "ilog2 x = (if 2 powi k \<le> x then k else k - 1)"
    by (simp add: ilog2_def pq k_def bp_def bq_def P_def Q_def bitlen_def)
  show ?thesis
  proof (cases "2 powi k \<le> x")
    case True
    have "x = of_nat P / of_nat Q" by (simp add: x P Q)
    also have "\<dots> < 2 ^ bp / 2 ^ (bq - 1)"
      using bP(2) bQ(1) by (intro frac_less) simp_all
    also have "k + 1 = int bp - int (bq - 1)" using bQ(3) by (simp add: k_def)
    then have "(2::rat) ^ bp / 2 ^ (bq - 1) = 2 powi (k + 1)"
      by (simp add: power_int_diff)
    finally show ?thesis using il True by simp
  next
    case False
    with il show ?thesis by simp
  qed
qed

text \<open>
  The scaled value that \<open>fl\<close> rounds has exactly 53 bits before the point, as the significand
  of a double does.
\<close>

lemma significand_range:
  assumes "0 < x"
  shows "2 ^ 52 \<le> x / 2 powi (ilog2 x - 52)" "x / 2 powi (ilog2 x - 52) < 2 ^ 53"
proof -
  define e where "e = ilog2 x - 52"
  define s :: rat where "s = 2 powi e"
  have s: "0 < s" by (simp add: s_def)
  have "ilog2 x = e + 52" by (simp add: e_def)
  then have "(2::rat) powi (ilog2 x) = s * 2 ^ 52"
    by (simp add: s_def power_int_add)
  with ilog2_lower[OF assms] have "s * 2 ^ 52 \<le> x" by simp
  then have "2 ^ 52 \<le> x / s" using s by (simp add: field_simps)
  then show "2 ^ 52 \<le> x / 2 powi (ilog2 x - 52)" by (simp add: s_def e_def)
  have "ilog2 x + 1 = e + 53" by (simp add: e_def)
  then have "(2::rat) powi (ilog2 x + 1) = s * 2 ^ 53"
    by (simp add: s_def power_int_add)
  with ilog2_upper[OF assms] have "x < s * 2 ^ 53" by simp
  then have "x / s < 2 ^ 53" using s by (simp add: field_simps)
  then show "x / 2 powi (ilog2 x - 52) < 2 ^ 53" by (simp add: s_def e_def)
qed

lemma round_even_error: "\<bar>of_int (round_even m) - m\<bar> \<le> 1 / 2"
proof -
  define f where "f = \<lfloor>m\<rfloor>"
  define r where "r = m - of_int f"
  have r: "0 \<le> r" "r < 1" unfolding r_def f_def by linarith+
  have m: "m = of_int f + r" by (simp add: r_def)
  have "round_even m = (if r < 1 / 2 then f else if r > 1 / 2 then f + 1 else if even f then f else f + 1)"
    by (simp add: round_even_def Let_def f_def r_def)
  then show ?thesis using r unfolding m by (auto split: if_splits)
qed

lemma fl_error:
  assumes "0 < x"
  shows "\<bar>fl x - x\<bar> \<le> x / 2 ^ 53"
proof -
  define e where "e = ilog2 x - 52"
  define s :: rat where "s = 2 powi e"
  have s: "0 < s" by (simp add: s_def)
  have f: "fl x = of_int (round_even (x / s)) * s"
    using assms by (simp add: fl_def Let_def e_def s_def)
  have "ilog2 x = e + 52" by (simp add: e_def)
  then have "(2::rat) powi (ilog2 x) = s * 2 ^ 52"
    by (simp add: s_def power_int_add)
  with ilog2_lower[OF assms] have big: "s * 2 ^ 52 \<le> x" by simp
  have "fl x - x = (of_int (round_even (x / s)) - x / s) * s"
    using s by (simp add: f field_simps)
  then have "\<bar>fl x - x\<bar> = \<bar>of_int (round_even (x / s)) - x / s\<bar> * s"
    using s by (simp add: abs_mult)
  also have "\<dots> \<le> (1 / 2) * s"
    using s round_even_error[of "x / s"] by (intro mult_right_mono) simp_all
  also have "\<dots> = (s * 2 ^ 52) / 2 ^ 53" by simp
  also have "\<dots> \<le> x / 2 ^ 53"
    using big by (intro divide_right_mono) simp_all
  finally show ?thesis .
qed

lemma fl_zero [simp]: "fl 0 = 0"
  by (simp add: fl_def)

lemma double_product_close:
  fixes x :: rat
  assumes "0 < x" "x \<le> 1"
  shows "\<bar>fl (fl x * 100) - 100 * x\<bar> < 1 / 2 ^ 45"
proof -
  define q where "q = fl x"
  define y where "y = fl (q * 100)"
  have eq: "\<bar>q - x\<bar> \<le> x / 2 ^ 53" unfolding q_def using assms(1) by (rule fl_error)
  have "x / 2 ^ 53 < x" using assms(1) by (simp add: field_simps)
  with eq have qpos: "0 < q" by linarith
  from eq have qle: "q \<le> x + x / 2 ^ 53" by linarith
  have "0 < q * 100" using qpos by simp
  then have ey: "\<bar>y - q * 100\<bar> \<le> q * 100 / 2 ^ 53" unfolding y_def by (rule fl_error)
  have "q * 100 / 2 ^ 53 \<le> (x + x / 2 ^ 53) * 100 / 2 ^ 53"
    using qle by (intro divide_right_mono mult_right_mono) simp_all
  with ey have ey': "\<bar>y - q * 100\<bar> \<le> (x + x / 2 ^ 53) * 100 / 2 ^ 53" by linarith
  have "\<bar>y - 100 * x\<bar> = \<bar>(y - q * 100) + 100 * (q - x)\<bar>" by (simp add: algebra_simps)
  also have "\<dots> \<le> \<bar>y - q * 100\<bar> + \<bar>100 * (q - x)\<bar>" by (rule abs_triangle_ineq)
  also have "\<bar>100 * (q - x)\<bar> = 100 * \<bar>q - x\<bar>" by (simp only: abs_mult abs_numeral)
  also have "\<bar>y - q * 100\<bar> + 100 * \<bar>q - x\<bar> \<le>
      (x + x / 2 ^ 53) * 100 / 2 ^ 53 + 100 * (x / 2 ^ 53)"
    using ey' eq by (intro add_mono mult_left_mono) simp_all
  also have "\<dots> = x * ((1 + 1 / 2 ^ 53) * 100 / 2 ^ 53 + 100 / 2 ^ 53)"
    by (simp add: field_simps)
  also have "\<dots> \<le> 1 * ((1 + 1 / 2 ^ 53) * 100 / 2 ^ 53 + 100 / 2 ^ 53)"
    using assms(2) by (intro mult_right_mono) simp_all
  also have "\<dots> < 1 / 2 ^ 45" by simp
  finally show ?thesis by (simp add: y_def q_def)
qed

lemma approvalRate_nearest:
  assumes pos: "0 < a + p" and small: "a + p < 2 ^ 44"
  shows "\<bar>of_int (approvalRate a p) - 100 * of_nat a / of_nat (a + p)\<bar> \<le> (1 / 2 :: rat)"
proof (cases "a = 0")
  case True
  have "\<lfloor>(1 / 2 :: rat)\<rfloor> = 0" by (rule floor_unique) simp_all
  with True show ?thesis using pos by (simp add: approvalRate_def Math_round_def)
next
  case False
  define n where "n = a + p"
  define x :: rat where "x = of_nat a / of_nat n"
  define y where "y = fl (fl x * 100)"
  define k where "k = \<lfloor>y + 1 / 2\<rfloor>"
  define t :: rat where "t = 100 * x"
  have n: "0 < n" "a \<le> n" using pos by (simp_all add: n_def)
  have npos: "(0::rat) < of_nat n" using n by simp
  have x: "0 < x" "x \<le> 1" using False n by (simp_all add: x_def)
  have rate: "approvalRate a p = k"
    using pos by (simp add: approvalRate_def Math_round_def k_def y_def x_def n_def)
  have close: "\<bar>y - t\<bar> < 1 / 2 ^ 45"
    unfolding y_def t_def using x by (rule double_product_close)
  have k: "of_int k \<le> y + 1 / 2" "y + 1 / 2 < of_int k + 1"
    unfolding k_def by linarith+
  have t: "t * (2 * of_nat n) = 200 * of_nat a"
    using npos by (simp add: t_def x_def)
  have small': "(2::rat) * of_nat n \<le> 2 ^ 45"
  proof -
    have "(of_nat n :: rat) \<le> of_nat (2 ^ 44)" using small unfolding n_def of_nat_le_iff by simp
    then show ?thesis by simp
  qed
  have gap: "1 / 2 ^ 45 \<le> 1 / (2 * of_nat n :: rat)"
    using small' npos by (intro divide_left_mono) simp_all
  have upper: "of_int k \<le> t + 1 / 2"
  proof (rule ccontr)
    assume "\<not> of_int k \<le> t + 1 / 2"
    then have "t + 1 / 2 < of_int k" by simp
    then have "(t + 1 / 2) * (2 * of_nat n) < of_int k * (2 * of_nat n)"
      using npos by (intro mult_strict_right_mono) simp_all
    then have "(of_int (200 * int a + int n) :: rat) < of_int (k * (2 * int n))"
      using t by (simp add: algebra_simps)
    then have "200 * int a + int n < k * (2 * int n)" by (simp only: of_int_less_iff)
    then have "200 * int a + int n + 1 \<le> k * (2 * int n)" by simp
    then have "(of_int (200 * int a + int n + 1) :: rat) \<le> of_int (k * (2 * int n))"
      by (simp only: of_int_le_iff)
    then have "(t + 1 / 2) * (2 * of_nat n) + 1 \<le> of_int k * (2 * of_nat n)"
      using t by (simp add: algebra_simps)
    then have "t + 1 / 2 + 1 / (2 * of_nat n) \<le> of_int k"
      using npos by (simp add: field_simps)
    with k(1) close gap show False by linarith
  qed
  have lower: "t - 1 / 2 \<le> of_int k"
  proof (rule ccontr)
    assume "\<not> t - 1 / 2 \<le> of_int k"
    then have "of_int k < t - 1 / 2" by simp
    then have "of_int k * (2 * of_nat n) < (t - 1 / 2) * (2 * of_nat n)"
      using npos by (intro mult_strict_right_mono) simp_all
    then have "(of_int (k * (2 * int n)) :: rat) < of_int (200 * int a - int n)"
      using t by (simp add: algebra_simps)
    then have "k * (2 * int n) < 200 * int a - int n" by (simp only: of_int_less_iff)
    then have "k * (2 * int n) + 1 \<le> 200 * int a - int n" by simp
    then have "(of_int (k * (2 * int n) + 1) :: rat) \<le> of_int (200 * int a - int n)"
      by (simp only: of_int_le_iff)
    then have "of_int k * (2 * of_nat n) + 1 \<le> (t - 1 / 2) * (2 * of_nat n)"
      using t by (simp add: algebra_simps)
    then have "of_int k + 1 / (2 * of_nat n) \<le> t - 1 / 2"
      using npos by (simp add: field_simps)
    with k(2) close gap show False by linarith
  qed
  have "100 * of_nat a / of_nat (a + p) = t"
    by (simp add: t_def x_def n_def)
  moreover have "\<bar>of_int k - t\<bar> \<le> 1 / 2" using upper lower by linarith
  ultimately show ?thesis by (simp only: rate)
qed

subsection \<open>Analytics\<close>

lemma map_filter_all_None: "(\<forall>x\<in>set xs. f x = None) \<Longrightarrow> List.map_filter f xs = []"
  by (induction xs) (simp_all add: map_filter_simps)

lemma approvalRate_two_one: "approvalRate 2 1 = 67"
  by code_simp

text \<open>
  An exact tie: 29 approved of 200 decided is 14.5 percent. The double nearest to 0.145 lies
  below it, the product with 100 rounds to the double just below 14.5, and the rate reported
  is 14, the lower of the two nearest integers.
\<close>

lemma approvalRate_tie:
  "approvalRate 29 171 = 14 \<and> (100 * of_nat 29 / of_nat (29 + 171) :: rat) = 29 / 2 \<and>
   fl (fl (29 / 200) * 100) < 29 / 2"
  by code_simp

text \<open>
  Claim C8. A board member or admin is answered 200. The approval rate in the answer is
  \<^verbatim>\<open>Math.round\<close> of the double product \<^verbatim>\<open>(approved / (approved + passed)) * 100\<close> when a submission is
  approved or passed and 0 when none is; it is an integer percent within one half of the exact
  percentage, that is, a nearest integer (for fewer than \<open>2 ^ 44\<close> decided submissions), and 67
  for two approved and one passed. When no submission has a rating, the average rating in
  the answer is the string \<^verbatim>\<open>N/A\<close>, not the number 0 and not \<^verbatim>\<open>null\<close>.
\<close>

theorem analytics_figures:
  assumes "a_role a = ''board'' \<or> a_role a = ''admin''"
  shows
   "\<exists>v. analytics sql_avg toFixed1 a d = Sent 200 v \<and>
      (0 < count_status d ''approved'' + count_status d ''passed'' \<longrightarrow>
         an_approvalRate v =
           Math_round (fl (fl (of_nat (count_status d ''approved'') /
              of_nat (count_status d ''approved'' + count_status d ''passed'')) * 100))) \<and>
      (count_status d ''approved'' + count_status d ''passed'' = 0 \<longrightarrow> an_approvalRate v = 0) \<and>
      (0 < count_status d ''approved'' + count_status d ''passed'' \<and>
       count_status d ''approved'' + count_status d ''passed'' < 2 ^ 44 \<longrightarrow>
         \<bar>of_int (an_approvalRate v) -
            100 * of_nat (count_status d ''approved'') /
              of_nat (count_status d ''approved'' + count_status d ''passed'')\<bar> \<le> (1 / 2 :: rat)) \<and>
      (count_status d ''approved'' = 2 \<and> count_status d ''passed'' = 1 \<longrightarrow> an_approvalRate v = 67) \<and>
      ((\<forall>s\<in>set (submissions d). s_rating s = None) \<longrightarrow>
         an_avgRating v = JsString ''N/A'' \<and> an_avgRating v \<noteq> JsNumber 0 \<and>
         an_avgRating v \<noteq> JsNull)"
proof -
  define A where "A = count_status d ''approved''"
  define P where "P = count_status d ''passed''"
  define avg where "avg = avg_rating sql_avg d"
  define v where "v = \<lparr>an_total = length (submissions d),
     an_avgRating = (case avg of None \<Rightarrow> JsString ''N/A''
                     | Some x \<Rightarrow> if x = 0 then JsString ''N/A'' else JsString (toFixed1 x)),
     an_approvalRate = approvalRate A P\<rparr>"
  have rr: "requireRole ''board'' a = (None :: analytics_view reply option)"
    using assms by (rule requireRole_pass)
  have ans: "analytics sql_avg toFixed1 a d = Sent 200 v"
    by (simp add: analytics_def rr Let_def v_def A_def P_def avg_def)
  have r: "an_approvalRate v = approvalRate A P" by (simp add: v_def)
  have 1: "0 < A + P \<longrightarrow>
      an_approvalRate v = Math_round (fl (fl (of_nat A / of_nat (A + P)) * 100))"
    by (simp add: r approvalRate_def)
  have 2: "A + P = 0 \<longrightarrow> an_approvalRate v = 0"
    by (simp add: r approvalRate_def)
  have 3: "0 < A + P \<and> A + P < 2 ^ 44 \<longrightarrow>
      \<bar>of_int (an_approvalRate v) - 100 * of_nat A / of_nat (A + P)\<bar> \<le> (1 / 2 :: rat)"
    unfolding r using approvalRate_nearest[of A P] by blast
  have 4: "A = 2 \<and> P = 1 \<longrightarrow> an_approvalRate v = 67"
    unfolding r using approvalRate_two_one by auto
  have 5: "(\<forall>s\<in>set (submissions d). s_rating s = None) \<longrightarrow>
         an_avgRating v = JsString ''N/A'' \<and> an_avgRating v \<noteq> JsNumber 0 \<and> an_avgRating v \<noteq> JsNull"
  proof
    assume "\<forall>s\<in>set (submissions d). s_rating s = None"
    then have "List.map_filter s_rating (submissions d) = []" by (rule map_filter_all_None)
    then have "avg = None" by (simp add: avg_def avg_rating_def)
    then show "an_avgRating v = JsString ''N/A'' \<and> an_avgRating v \<noteq> JsNumber 0 \<and> an_avgRating v \<noteq> JsNull"
      by (simp add: v_def)
  qed
  from ans 1 2 3 4 5 show ?thesis
    unfolding A_def P_def by (intro exI[of _ v] conjI)
qed

theorem analytics_figures_witness:
  "a_role sarah = ''board'' \<and>
   count_status two_approved_db ''approved'' = 2 \<and> count_status two_approved_db ''passed'' = 1 \<and>
   (\<exists>v. analytics (\<lambda>cells. sum_list (map (case_sql_value id (\<lambda>s. 0)) cells) / of_nat (length cells))
          (\<lambda>x. ''unused'') sarah two_approved_db = Sent 200 v \<and>
        an_approvalRate v = 67 \<and> \<bar>of_int (an_approvalRate v) - 100 * 2 / 3\<bar> \<le> (1 / 2 :: rat)) \<and>
   list_all (\<lambda>s. s_rating s = None) (submissions unrated_db) \<and>
   (\<exists>v. analytics (\<lambda>cells. sum_list (map (case_sql_value id (\<lambda>s. 0)) cells) / of_nat (length cells))
          (\<lambda>x. ''unused'') sarah unrated_db = Sent 200 v \<and>
        an_avgRating v = JsString ''N/A'') \<and>
   (\<exists>v. analytics (\<lambda>cells. sum_list (map (case_sql_value id (\<lambda>s. 0)) cells) / of_nat (length cells))
          (\<lambda>x. ''unused'') sarah
          (seed_db\<lparr>submissions := []\<rparr>) = Sent 200 v \<and> an_approvalRate v = 0)"
proof -
  let ?avg = "\<lambda>cells. sum_list (map (case_sql_value id (\<lambda>s. 0)) cells) / of_nat (length cells) :: rat"
  let ?fix = "\<lambda>x :: rat. ''unused''"
  have role: "a_role sarah = ''board'' \<or> a_role sarah = ''admin''" by (simp add: sarah_def)
  have c: "count_status two_approved_db ''approved'' = 2" "count_status two_approved_db ''passed'' = 1"
    by (simp_all add: count_status_def two_approved_db_def update_status_def seed_db_def seed_submissions_def)
  have u: "\<forall>s\<in>set (submissions unrated_db). s_rating s = None"
    by (simp add: unrated_db_def seed_db_def seed_submissions_def)
  have e: "count_status (seed_db\<lparr>submissions := []\<rparr>) ''approved'' +
           count_status (seed_db\<lparr>submissions := []\<rparr>) ''passed'' = 0"
    by (simp add: count_status_def)
  from analytics_figures [OF role, of ?avg ?fix two_approved_db] c
  have 1: "\<exists>v. analytics ?avg ?fix sarah two_approved_db = Sent 200 v \<and>
        an_approvalRate v = 67 \<and> \<bar>of_int (an_approvalRate v) - 100 * 2 / 3\<bar> \<le> (1 / 2 :: rat)"
    by auto
  from analytics_figures [OF role, of ?avg ?fix unrated_db] u
  have 2: "\<exists>v. analytics ?avg ?fix sarah unrated_db = Sent 200 v \<and> an_avgRating v = JsString ''N/A''"
    by blast
  from analytics_figures [OF role, of ?avg ?fix "seed_db\<lparr>submissions := []\<rparr>"] e
  have 3: "\<exists>v. analytics ?avg ?fix sarah (seed_db\<lparr>submissions := []\<rparr>) = Sent 200 v \<and> an_approvalRate v = 0"
    by blast
  have 4: "list_all (\<lambda>s. s_rating s = None) (submissions unrated_db)"
    using u by (simp only: list_all_iff)
  have 0: "a_role sarah = ''board''" by (simp add: sarah_def)
  from 0 c 1 4 2 3 show ?thesis by (intro conjI)
qed

end
